theory Spec2Isabelle
  imports Main "HOL-Library.Multiset"
begin

section \<open>Errors\<close>

text \<open>
  The exceptions the script can raise, as values.  None of them is caught anywhere in the
  script, so each one ends the run.
\<close>

datatype error =
    ParseError                \<comment> \<open>\<open>ValueError\<close> of \<open>strptime\<close>, \<open>int\<close>, \<open>timezone\<close>, \<open>fromisoformat\<close>\<close>
  | NotSubscriptable          \<comment> \<open>\<open>TypeError\<close>: \<open>date_str[:-6]\<close> on a missing cell, a float\<close>
  | IndexError                \<comment> \<open>\<open>iloc[0]\<close> on an empty frame\<close>
  | InvalidComparison         \<comment> \<open>\<open>TypeError\<close>: a datetime column compared with \<open>None\<close>\<close>
  | NoObjectsToConcatenate    \<comment> \<open>\<open>ValueError\<close> of \<open>pd.concat([])\<close>\<close>

section \<open>Dates and times\<close>

text \<open>
  A naive \<open>datetime\<close> is its wall-clock fields; an aware one adds the offset from UTC of
  its \<open>tzinfo\<close>, in minutes (\<open>timezone(timedelta(minutes=...))\<close> and \<open>pytz.UTC\<close> are
  both fixed offsets).
\<close>

record naive =
  year :: int
  month :: int
  day :: int
  hour :: int
  minute :: int
  second :: int
  microsecond :: int

record aware =
  wall :: naive
  utcoffset :: int

definition is_leap :: "int \<Rightarrow> bool" where
  "is_leap y = (y mod 4 = 0 \<and> (y mod 100 \<noteq> 0 \<or> y mod 400 = 0))"

definition days_in_month :: "int \<Rightarrow> int \<Rightarrow> int" where
  "days_in_month y m =
     (if m = 2 then (if is_leap y then 29 else 28)
      else if m = 4 \<or> m = 6 \<or> m = 9 \<or> m = 11 then 30 else 31)"

definition days_before_year :: "int \<Rightarrow> int" where
  "days_before_year y = (y - 1) * 365 + (y - 1) div 4 - (y - 1) div 100 + (y - 1) div 400"

definition days_before_month :: "int \<Rightarrow> int \<Rightarrow> int" where
  "days_before_month y m = sum_list (map (days_in_month y) [1 ..  m - 1])"

text \<open>\<open>date.toordinal\<close>: day 1 is 0001-01-01; 1970-01-01 is day 719163.\<close>

definition ymd2ord :: "int \<Rightarrow> int \<Rightarrow> int \<Rightarrow> int" where
  "ymd2ord y m d = days_before_year y + days_before_month y m + d"

text \<open>
  Aware datetimes are ordered and subtracted as absolute instants.  The instant is counted
  in nanoseconds since 1970-01-01T00:00:00Z, the unit of a pandas \<open>Timestamp\<close>, without
  the bounds of its 64 bits (the years 1677 to 2262).
\<close>

type_synonym timestamp = int

definition instant :: "aware \<Rightarrow> timestamp" where
  "instant a =
     (let w = wall a;
          secs = (ymd2ord (year w) (month w) (day w) - 719163) * 86400
                 + hour w * 3600 + minute w * 60 + second w - utcoffset a * 60
      in (secs * 1000000 + microsecond w) * 1000)"

section \<open>Text\<close>

text \<open>Strings are ASCII text; a character is its code.\<close>

definition is_digit :: "char \<Rightarrow> bool" where
  "is_digit c = (48 \<le> (of_char c :: nat) \<and> (of_char c :: nat) \<le> 57)"

definition digit_val :: "char \<Rightarrow> int" where
  "digit_val c = int (of_char c) - 48"

text \<open>What the regular expression \<open>\s\<close> matches among ASCII characters.\<close>

definition re_space :: "char \<Rightarrow> bool" where
  "re_space c = (let n = (of_char c :: nat) in (9 \<le> n \<and> n \<le> 13) \<or> (28 \<le> n \<and> n \<le> 32))"

text \<open>What \<open>int\<close> strips from both ends of its argument.\<close>

definition int_space :: "char \<Rightarrow> bool" where
  "int_space c = (let n = (of_char c :: nat) in (9 \<le> n \<and> n \<le> 13) \<or> n = 32)"

definition strip :: "string \<Rightarrow> string" where
  "strip s = rev (dropWhile int_space (rev (dropWhile int_space s)))"

text \<open>
  The digits of an \<open>int\<close> literal: groups of digits, single underscores allowed between
  two digits only.  The accumulator is the value read so far.
\<close>

fun int_digits :: "int \<Rightarrow> string \<Rightarrow> int option" where
  "int_digits acc [] = Some acc"
| "int_digits acc [c] = (if is_digit c then Some (10 * acc + digit_val c) else None)"
| "int_digits acc (c # d # cs) =
     (if \<not> is_digit c then None
      else if d = CHR ''_'' then
        (case cs of [] \<Rightarrow> None | _ \<Rightarrow> int_digits (10 * acc + digit_val c) cs)
      else int_digits (10 * acc + digit_val c) (d # cs))"

text \<open>Python's \<open>int(s)\<close> on a string, base ten.\<close>

definition py_int :: "string \<Rightarrow> error + int" where
  "py_int s =
     (let t = strip s;
          (neg, body) = (case t of
                           c # cs \<Rightarrow> if c = CHR ''-'' then (True, cs)
                                     else if c = CHR ''+'' then (False, cs) else (False, t)
                         | [] \<Rightarrow> (False, t))
      in case body of
           [] \<Rightarrow> Inl ParseError
         | _ \<Rightarrow> (case int_digits 0 body of
                   None \<Rightarrow> Inl ParseError
                 | Some v \<Rightarrow> Inr (if neg then - v else v)))"

text \<open>Python slices: \<open>s[:-k]\<close>, \<open>s[-k:]\<close> and \<open>s[i:j]\<close> for constant non-negative i, j, k.\<close>

definition slice_to_neg :: "nat \<Rightarrow> 'a list \<Rightarrow> 'a list" where
  "slice_to_neg k s = take (length s - k) s"

definition slice_from_neg :: "nat \<Rightarrow> 'a list \<Rightarrow> 'a list" where
  "slice_from_neg k s = drop (length s - k) s"

definition slice :: "nat \<Rightarrow> nat \<Rightarrow> 'a list \<Rightarrow> 'a list" where
  "slice i j s = drop i (take j s)"

section \<open>\<open>strptime\<close> with the format \<open>%Y-%m-%d %H:%M:%S\<close>\<close>

text \<open>
  \<open>strptime\<close> compiles the format to the regular expression
  \<^verbatim>\<open>(\d\d\d\d)-(1[0-2]|0[1-9]|[1-9])-(3[0-1]|[1-2]\d|0[1-9]|[1-9]| [1-9])\s+\<close>
  \<^verbatim>\<open>(2[0-3]|[0-1]\d|\d):([0-5]\d|\d):(6[0-1]|[0-5]\d|\d)\<close>
  and matches it at the start of the text.  A matcher below returns the ways its group
  matches a prefix, in the order the engine tries them, each with the text left over.
\<close>

definition in_range :: "int \<Rightarrow> int \<Rightarrow> char \<Rightarrow> bool" where
  "in_range lo hi c = (is_digit c \<and> lo \<le> digit_val c \<and> digit_val c \<le> hi)"

fun two :: "int \<Rightarrow> int \<Rightarrow> int \<Rightarrow> int \<Rightarrow> string \<Rightarrow> (int \<times> string) list" where
  "two lo1 hi1 lo2 hi2 (a # b # rest) =
     (if in_range lo1 hi1 a \<and> in_range lo2 hi2 b
      then [(10 * digit_val a + digit_val b, rest)] else [])"
| "two lo1 hi1 lo2 hi2 _ = []"

fun one :: "int \<Rightarrow> int \<Rightarrow> string \<Rightarrow> (int \<times> string) list" where
  "one lo hi (a # rest) = (if in_range lo hi a then [(digit_val a, rest)] else [])"
| "one lo hi [] = []"

fun lit :: "char \<Rightarrow> string \<Rightarrow> string list" where
  "lit c (a # rest) = (if a = c then [rest] else [])"
| "lit c [] = []"

fun re_Y :: "string \<Rightarrow> (int \<times> string) list" where
  "re_Y (a # b # c # d # rest) =
     (if is_digit a \<and> is_digit b \<and> is_digit c \<and> is_digit d
      then [(1000 * digit_val a + 100 * digit_val b + 10 * digit_val c + digit_val d, rest)]
      else [])"
| "re_Y _ = []"

definition re_m :: "string \<Rightarrow> (int \<times> string) list" where
  "re_m s = two 1 1 0 2 s @ two 0 0 1 9 s @ one 1 9 s"

definition re_d :: "string \<Rightarrow> (int \<times> string) list" where
  "re_d s = two 3 3 0 1 s @ two 1 2 0 9 s @ two 0 0 1 9 s @ one 1 9 s
            @ concat (map (one 1 9) (lit CHR '' '' s))"

definition re_H :: "string \<Rightarrow> (int \<times> string) list" where
  "re_H s = two 2 2 0 3 s @ two 0 1 0 9 s @ one 0 9 s"

definition re_M :: "string \<Rightarrow> (int \<times> string) list" where
  "re_M s = two 0 5 0 9 s @ one 0 9 s"

definition re_S :: "string \<Rightarrow> (int \<times> string) list" where
  "re_S s = two 6 6 0 1 s @ two 0 5 0 9 s @ one 0 9 s"

text \<open>\<open>\s+\<close> is greedy: the longest run of white space first.\<close>

fun re_spaces :: "string \<Rightarrow> string list" where
  "re_spaces (c # cs) = (if re_space c then re_spaces cs @ [cs] else [])"
| "re_spaces [] = []"

definition strptime_matches :: "string \<Rightarrow> (naive \<times> string) list" where
  "strptime_matches s =
     [(\<lparr>year = Y, month = m, day = d, hour = H, minute = M, second = S, microsecond = 0\<rparr>, r11).
        (Y, r1) \<leftarrow> re_Y s, r2 \<leftarrow> lit CHR ''-'' r1,
        (m, r3) \<leftarrow> re_m r2, r4 \<leftarrow> lit CHR ''-'' r3,
        (d, r5) \<leftarrow> re_d r4, r6 \<leftarrow> re_spaces r5,
        (H, r7) \<leftarrow> re_H r6, r8 \<leftarrow> lit CHR '':'' r7,
        (M, r9) \<leftarrow> re_M r8, r10 \<leftarrow> lit CHR '':'' r9,
        (S, r11) \<leftarrow> re_S r10]"

text \<open>
  \<open>datetime.strptime(s, '%Y-%m-%d %H:%M:%S')\<close>: the first match is taken; text left over
  after it, a date that does not exist (year 0, day beyond the month) and a second of 60
  or 61 are all \<open>ValueError\<close>.
\<close>

definition strptime :: "string \<Rightarrow> error + naive" where
  "strptime s =
     (case strptime_matches s of
        [] \<Rightarrow> Inl ParseError
      | (n, rest) # _ \<Rightarrow>
          if rest \<noteq> [] then Inl ParseError
          else if year n < 1 \<or> days_in_month (year n) (month n) < day n then Inl ParseError
          else if 59 < second n then Inl ParseError
          else Inr n)"

text \<open>
  \<open>timezone(timedelta(minutes=m))\<close> exists only for an offset strictly within a day.
\<close>

definition timezone :: "int \<Rightarrow> error + int" where
  "timezone m = (if - 1440 < m \<and> m < 1440 then Inr m else Inl ParseError)"

section \<open>The timestamp normalizer\<close>

text \<open>
  \<open>_parse_date_with_offset\<close>: the text without its last six characters goes to
  \<open>strptime\<close>; the last five are the offset, a sign and two two-character numbers read by
  \<open>int\<close>.  The sixth character from the end is skipped unread, and any sign character
  other than \<open>-\<close> counts as plus.  When the sign is looked at, \<open>strptime\<close> has accepted
  the front part, so the offset part has its five characters and \<open>offset_str[0]\<close> exists.
\<close>

definition parse_date_with_offset :: "string \<Rightarrow> error + aware" where
  "parse_date_with_offset date_str =
     (let dt_str = slice_to_neg 6 date_str;
          offset_str = slice_from_neg 5 date_str
      in case strptime dt_str of
           Inl e \<Rightarrow> Inl e
         | Inr dt \<Rightarrow>
            (case py_int (slice 1 3 offset_str) of
               Inl e \<Rightarrow> Inl e
             | Inr hh \<Rightarrow>
                (case py_int (slice 3 5 offset_str) of
                   Inl e \<Rightarrow> Inl e
                 | Inr mm \<Rightarrow>
                    (let offset_minutes = hh * 60 + mm;
                         offset_minutes = (if take 1 offset_str = ''-''
                                           then - offset_minutes else offset_minutes)
                     in case timezone offset_minutes of
                          Inl e \<Rightarrow> Inl e
                        | Inr tz \<Rightarrow> Inr \<lparr>wall = dt, utcoffset = tz\<rparr>))))"

text \<open>
  \<open>gpx_time_string_to_datetime\<close>: trailing \<open>Z\<close>s are stripped, the rest is read by
  \<open>datetime.fromisoformat\<close>, and whatever zone that gave is replaced by UTC without
  moving the wall clock.  \<open>fromisoformat\<close> belongs to the Python library and accepts
  different texts in different versions; it is a parameter here, \<open>None\<close> being its
  \<open>ValueError\<close>, and only the wall-clock fields of its result matter.
\<close>

definition rstrip_Z :: "string \<Rightarrow> string" where
  "rstrip_Z s = rev (dropWhile (\<lambda>c. c = CHR ''Z'') (rev s))"

definition gpx_time_string_to_datetime :: "(string \<Rightarrow> naive option) \<Rightarrow> string \<Rightarrow> error + aware" where
  "gpx_time_string_to_datetime fromisoformat time_string =
     (case fromisoformat (rstrip_Z time_string) of
        None \<Rightarrow> Inl ParseError
      | Some dt \<Rightarrow> Inr \<lparr>wall = dt, utcoffset = 0\<rparr>)"

section \<open>The workout window extractor\<close>

text \<open>
  A track file is read by \<open>xml.etree\<close>; what reaches the code below is the text of the
  \<open>time\<close> element of every track point, in file order.  A window is the pair of bounds,
  both \<open>None\<close> for a file without points.
\<close>

type_synonym window = "aware option \<times> aware option"

definition extract_times_from_gpx ::
  "(string \<Rightarrow> naive option) \<Rightarrow> string list \<Rightarrow> error + window" where
  "extract_times_from_gpx fromisoformat all_timestamps =
     (if all_timestamps \<noteq> [] then
        (case gpx_time_string_to_datetime fromisoformat (hd all_timestamps) of
           Inl e \<Rightarrow> Inl e
         | Inr first_time \<Rightarrow>
            (case gpx_time_string_to_datetime fromisoformat (last all_timestamps) of
               Inl e \<Rightarrow> Inl e
             | Inr last_time \<Rightarrow> Inr (Some first_time, Some last_time)))
      else Inr (None, None))"

definition endswith :: "string \<Rightarrow> string \<Rightarrow> bool" where
  "endswith s suf = (length suf \<le> length s \<and> drop (length s - length suf) s = suf)"

text \<open>\<open>results[k] = v\<close> on a dictionary kept in insertion order.\<close>

fun dict_set :: "('k \<times> 'v) list \<Rightarrow> 'k \<Rightarrow> 'v \<Rightarrow> ('k \<times> 'v) list" where
  "dict_set [] k v = [(k, v)]"
| "dict_set ((k', v') # kvs) k v =
     (if k' = k then (k, v) # kvs else (k', v') # dict_set kvs k v)"

text \<open>
  \<open>process_workout_routes_dir\<close>: the directory is the list of its entries, a file name
  with the time texts of that file, in the order \<open>os.listdir\<close> gives them.
\<close>

fun routes_loop ::
  "(string \<Rightarrow> naive option) \<Rightarrow> (string \<times> string list) list \<Rightarrow> (string \<times> window) list
   \<Rightarrow> error + (string \<times> window) list" where
  "routes_loop fromisoformat [] results = Inr results"
| "routes_loop fromisoformat ((filename, time_texts) # entries) results =
     (if endswith filename ''.gpx'' then
        (case extract_times_from_gpx fromisoformat time_texts of
           Inl e \<Rightarrow> Inl e
         | Inr w \<Rightarrow> routes_loop fromisoformat entries (dict_set results filename w))
      else routes_loop fromisoformat entries results)"

definition process_workout_routes_dir ::
  "(string \<Rightarrow> naive option) \<Rightarrow> (string \<times> string list) list \<Rightarrow> error + (string \<times> window) list" where
  "process_workout_routes_dir fromisoformat workout_routes_dir =
     routes_loop fromisoformat workout_routes_dir []"

section \<open>The health table\<close>

text \<open>
  A cell of a frame: text, an absolute instant, or nothing.  \<open>read_csv\<close> delivers a cell
  that is empty (or holds one of its markers such as \<open>NA\<close>) as \<open>NaN\<close>.
\<close>

datatype cell = Text string | Time timestamp | Missing

text \<open>
  A row of the health CSV as \<open>read_csv\<close> delivers it.  The four columns the script reads
  are fields, \<open>None\<close> for a missing cell; \<open>c_other\<close> holds every other column of the
  file, by name and in the order of the file, so none of its names is one of these four.
\<close>

record csv_row =
  c_type :: "string option"
  c_value :: "string option"
  c_startDate :: "string option"
  c_endDate :: "string option"
  c_other :: "(string \<times> cell) list"

text \<open>
  A row of the frame after the preparation step.  \<open>other\<close> holds the columns besides the
  first four, by name: those of the file and, once assigned, those the script sets.
\<close>

record 'v health_row =
  rtype :: "string option"
  rvalue :: 'v
  startDate :: aware
  endDate :: aware
  other :: "(string \<times> cell) list"

text \<open>
  \<open>df[name] = ...\<close> for one row: a column of that name is overwritten where it stands, a
  new one is added after the others.
\<close>

definition set_column :: "string \<Rightarrow> cell \<Rightarrow> 'v health_row \<Rightarrow> 'v health_row" where
  "set_column name c r = r\<lparr>other := dict_set (other r) name c\<rparr>"

text \<open>The three columns the script sets, read back from a row.\<close>

definition workout_date :: "'v health_row \<Rightarrow> string option" where
  "workout_date r = (case map_of (other r) ''workout_date'' of Some (Text s) \<Rightarrow> Some s | _ \<Rightarrow> None)"

definition midStartDate :: "'v health_row \<Rightarrow> timestamp option" where
  "midStartDate r = (case map_of (other r) ''midStartDate'' of Some (Time t) \<Rightarrow> Some t | _ \<Rightarrow> None)"

definition midEndDate :: "'v health_row \<Rightarrow> timestamp option" where
  "midEndDate r = (case map_of (other r) ''midEndDate'' of Some (Time t) \<Rightarrow> Some t | _ \<Rightarrow> None)"

text \<open>
  \<open>pd.to_numeric(..., errors='coerce')\<close> belongs to pandas; it is a parameter here, a
  function of the cell, with \<open>None\<close> for the \<open>NaN\<close> it leaves or puts where a cell is
  not a number.  The rows kept are those whose value is not \<open>NaN\<close>.
\<close>

definition numeric_rows ::
  "(string option \<Rightarrow> 'v option) \<Rightarrow> csv_row list \<Rightarrow> (csv_row \<times> 'v) list" where
  "numeric_rows to_numeric health_df =
     List.map_filter (\<lambda>r. map_option (Pair r) (to_numeric (c_value r))) health_df"

text \<open>
  \<open>_parse_date_with_offset\<close> on a cell.  A missing cell is a float, which the slice
  \<open>date_str[:-6]\<close> refuses.
\<close>

definition parse_cell :: "string option \<Rightarrow> error + aware" where
  "parse_cell c = (case c of None \<Rightarrow> Inl NotSubscriptable | Some s \<Rightarrow> parse_date_with_offset s)"

text \<open>\<open>column.apply(_parse_date_with_offset)\<close>: the first failure ends the run.\<close>

fun apply_parse :: "string option list \<Rightarrow> error + aware list" where
  "apply_parse [] = Inr []"
| "apply_parse (c # cs) =
     (case parse_cell c of
        Inl e \<Rightarrow> Inl e
      | Inr d \<Rightarrow> (case apply_parse cs of Inl e \<Rightarrow> Inl e | Inr ds \<Rightarrow> Inr (d # ds)))"

definition prepare_health_data ::
  "(string option \<Rightarrow> 'v option) \<Rightarrow> csv_row list \<Rightarrow> error + 'v health_row list" where
  "prepare_health_data to_numeric health_df =
     (let rows = numeric_rows to_numeric health_df in
      case apply_parse (map (\<lambda>(r, v). c_startDate r) rows) of
        Inl e \<Rightarrow> Inl e
      | Inr starts \<Rightarrow>
         (case apply_parse (map (\<lambda>(r, v). c_endDate r) rows) of
            Inl e \<Rightarrow> Inl e
          | Inr ends \<Rightarrow>
             Inr (map (\<lambda>((r, v), s, e).
                         \<lparr>rtype = c_type r, rvalue = v, startDate = s, endDate = e,
                          other = c_other r\<rparr>)
                      (zip rows (zip starts ends)))))"

section \<open>The interval join\<close>

text \<open>
  The column \<open>apply\<close> returns is stored by pandas as a timezone-aware datetime column
  when it is not empty and all its values carry one offset, and as a column of Python
  objects otherwise.  The two differ in one place the script reaches: ordering against
  \<open>None\<close> raises \<open>TypeError\<close> on a datetime column and is \<open>False\<close> everywhere on an
  object column.
\<close>

datatype dtype = DatetimeTZ | Object

definition column_dtype :: "aware list \<Rightarrow> dtype" where
  "column_dtype col =
     (case col of
        [] \<Rightarrow> Object
      | d # ds \<Rightarrow> if list_all (\<lambda>x. utcoffset x = utcoffset d) ds then DatetimeTZ else Object)"

fun compare_column ::
  "(timestamp \<Rightarrow> timestamp \<Rightarrow> bool) \<Rightarrow> aware list \<Rightarrow> aware option \<Rightarrow> error + bool list" where
  "compare_column cmp col (Some b) = Inr (map (\<lambda>d. cmp (instant d) (instant b)) col)"
| "compare_column cmp col None =
     (case column_dtype col of
        DatetimeTZ \<Rightarrow> Inl InvalidComparison
      | Object \<Rightarrow> Inr (map (\<lambda>d. False) col))"

text \<open>
  \<open>health_df[(health_df['startDate'] >= w['startDate']) & (health_df['endDate'] <= w['endDate'])]\<close>
\<close>

definition select_window :: "'v health_row list \<Rightarrow> window \<Rightarrow> error + 'v health_row list" where
  "select_window health_df workout_times =
     (case compare_column (\<lambda>a b. a \<ge> b) (map startDate health_df) (fst workout_times) of
        Inl e \<Rightarrow> Inl e
      | Inr ge \<Rightarrow>
         (case compare_column (\<lambda>a b. a \<le> b) (map endDate health_df) (snd workout_times) of
            Inl e \<Rightarrow> Inl e
          | Inr le \<Rightarrow>
             Inr (map fst (filter (\<lambda>(r, keep). keep)
                                  (zip health_df (map (\<lambda>(a, b). a \<and> b) (zip ge le)))))))"

section \<open>The midpoint partitioner\<close>

text \<open>\<open>Series.unique\<close>: the distinct values in order of first appearance.\<close>

fun unique_from :: "'a list \<Rightarrow> 'a list \<Rightarrow> 'a list" where
  "unique_from seen [] = []"
| "unique_from seen (x # xs) =
     (if x \<in> set seen then unique_from seen xs else x # unique_from (x # seen) xs)"

definition unique :: "'a list \<Rightarrow> 'a list" where
  "unique xs = unique_from [] xs"

text \<open>
  \<open>sort_values(by='startDate')\<close>.  The order pandas leaves rows with equal \<open>startDate\<close>
  in is not fixed by its default sort; here they keep their order.
\<close>

definition sort_values :: "'v health_row list \<Rightarrow> 'v health_row list" where
  "sort_values df = sort_key (\<lambda>r. instant (startDate r)) df"

text \<open>
  \<open>((s.shift(-1) - s) / 2 + s).to_list()[:-1]\<close>: the entry of the last row, which has no
  successor, is dropped by the slice; the others are the midpoints of neighbours.  Halving
  is whole-number division of nanoseconds, on differences that are not negative once the
  rows are sorted.
\<close>

definition midDates :: "timestamp list \<Rightarrow> timestamp list" where
  "midDates starts = map (\<lambda>(a, b). (b - a) div 2 + a) (zip starts (tl starts))"
text \<open>
  \<open>[s.iloc[0]] + midDates.to_list()[:-1] + [s.iloc[-1]]\<close>, for a column \<open>s\<close> that is not
  empty.
\<close>

definition dateList :: "timestamp list \<Rightarrow> timestamp list" where
  "dateList starts = [hd starts] @ midDates starts @ [last starts]"

text \<open>
  \<open>workout_health_df[workout_health_df['type']==type]\<close> sorted: \<open>type_wh_df\<close> before
  the new columns are assigned.  A missing type is \<open>NaN\<close>, which equals nothing, itself
  included.
\<close>

definition type_is :: "string option \<Rightarrow> 'v health_row \<Rightarrow> bool" where
  "type_is t r = (t \<noteq> None \<and> rtype r = t)"

definition type_subgroup :: "'v health_row list \<Rightarrow> string option \<Rightarrow> 'v health_row list" where
  "type_subgroup workout_health_df t = sort_values (filter (type_is t) workout_health_df)"

text \<open>The two assignments \<open>type_wh_df['midStartDate'] = ...\<close> and \<open>type_wh_df['midEndDate'] = ...\<close>.\<close>

definition assign_mid :: "timestamp \<Rightarrow> timestamp \<Rightarrow> 'v health_row \<Rightarrow> 'v health_row" where
  "assign_mid a b r = set_column ''midEndDate'' (Time b) (set_column ''midStartDate'' (Time a) r)"

text \<open>
  The body of the loop of \<open>_getMidDates\<close> for one type.  \<open>iloc[0]\<close> on a frame without
  rows is an \<open>IndexError\<close>.
\<close>

definition getMidDates_type ::
  "'v health_row list \<Rightarrow> string option \<Rightarrow> error + 'v health_row list" where
  "getMidDates_type workout_health_df t =
     (let type_wh_df = type_subgroup workout_health_df t in
      if length type_wh_df = 1 then
        Inr (map (\<lambda>r. assign_mid (instant (startDate r)) (instant (endDate r)) r) type_wh_df)
      else if type_wh_df = [] then Inl IndexError
      else
        (let dates = dateList (map (\<lambda>r. instant (startDate r)) type_wh_df)
         in Inr (map (\<lambda>(r, a, b). assign_mid a b r)
                     (zip type_wh_df (zip (butlast dates) (tl dates))))))"

text \<open>
  The loop of \<open>_getMidDates\<close> over \<open>workout_health_df['type'].unique()\<close>, which lists
  \<open>NaN\<close> among the types when a type is missing.
\<close>

fun getMidDates_loop ::
  "'v health_row list \<Rightarrow> string option list \<Rightarrow> 'v health_row list list
   \<Rightarrow> error + 'v health_row list list" where
  "getMidDates_loop df [] type_wh_dfs = Inr type_wh_dfs"
| "getMidDates_loop df (t # ts) type_wh_dfs =
     (case getMidDates_type df t of
        Inl e \<Rightarrow> Inl e
      | Inr type_wh_df \<Rightarrow> getMidDates_loop df ts (type_wh_dfs @ [type_wh_df]))"

text \<open>\<open>pd.concat\<close> of a list of frames; an empty list is a \<open>ValueError\<close>.\<close>

definition pd_concat :: "'a list list \<Rightarrow> error + 'a list" where
  "pd_concat dfs = (if dfs = [] then Inl NoObjectsToConcatenate else Inr (concat dfs))"

definition getMidDates :: "'v health_row list \<Rightarrow> error + 'v health_row list" where
  "getMidDates workout_health_df =
     (case getMidDates_loop workout_health_df (unique (map rtype workout_health_df)) [] of
        Inl e \<Rightarrow> Inl e
      | Inr type_wh_dfs \<Rightarrow> pd_concat type_wh_dfs)"

section \<open>The pipeline\<close>

fun join_loop ::
  "'v health_row list \<Rightarrow> (string \<times> window) list \<Rightarrow> 'v health_row list list
   \<Rightarrow> error + 'v health_row list list" where
  "join_loop health_df [] res = Inr res"
| "join_loop health_df ((workout_date', workout_times) # rest) res =
     (case select_window health_df workout_times of
        Inl e \<Rightarrow> Inl e
      | Inr workout_health_df \<Rightarrow>
         (let types = unique (map rtype workout_health_df) in
          if Some ''VO2Max'' \<in> set types then
            (case getMidDates (map (set_column ''workout_date'' (Text workout_date')) workout_health_df) of
               Inl e \<Rightarrow> Inl e
             | Inr df \<Rightarrow> join_loop health_df rest (res @ [df]))
          else join_loop health_df rest res))"

definition filter_health_export ::
  "(string \<Rightarrow> naive option) \<Rightarrow> (string option \<Rightarrow> 'v option) \<Rightarrow> (string \<times> string list) list
   \<Rightarrow> csv_row list \<Rightarrow> error + 'v health_row list" where
  "filter_health_export fromisoformat to_numeric workout_routes_dir health_csv =
     (case process_workout_routes_dir fromisoformat workout_routes_dir of
        Inl e \<Rightarrow> Inl e
      | Inr workout_datetimes \<Rightarrow>
         (case prepare_health_data to_numeric health_csv of
            Inl e \<Rightarrow> Inl e
          | Inr health_df \<Rightarrow>
             (case join_loop health_df workout_datetimes [] of
                Inl e \<Rightarrow> Inl e
              | Inr res \<Rightarrow> pd_concat res)))"

text \<open>
  \<open>process_workout_health_data\<close>: the output file is written only when
  \<open>filter_health_export\<close> has returned.  The file system is a map from paths to tables.
\<close>

definition process_workout_health_data ::
  "(string \<Rightarrow> naive option) \<Rightarrow> (string option \<Rightarrow> 'v option) \<Rightarrow> (string \<times> string list) list
   \<Rightarrow> csv_row list \<Rightarrow> string \<Rightarrow> (string \<rightharpoonup> 'v health_row list)
   \<Rightarrow> (error + unit) \<times> (string \<rightharpoonup> 'v health_row list)" where
  "process_workout_health_data fromisoformat to_numeric workout_routes_dir health_csv
       workout_health_df_fp files =
     (case filter_health_export fromisoformat to_numeric workout_routes_dir health_csv of
        Inl e \<Rightarrow> (Inl e, files)
      | Inr workout_health_df \<Rightarrow> (Inr (), files(workout_health_df_fp \<mapsto> workout_health_df)))"

section \<open>The columns of the input\<close>

text \<open>The names of the columns the script sets.\<close>

definition added_columns :: "string list" where
  "added_columns = [''workout_date'', ''midStartDate'', ''midEndDate'']"

text \<open>A row without the columns of these names: the part of it the script never assigns.\<close>

definition original :: "'v health_row \<Rightarrow> 'v health_row" where
  "original r = r\<lparr>other := filter (\<lambda>(name, c). name \<notin> set added_columns) (other r)\<rparr>"

section \<open>Rendering, and the inputs used as examples\<close>

text \<open>
  The text of encoding B, \<open>YYYY-MM-DD HH:MM:SS \<plusminus>HHMM\<close>, written from its fields with
  leading zeros.
\<close>

definition digit_char :: "int \<Rightarrow> char" where
  "digit_char d = char_of (48 + nat d)"

definition d2 :: "int \<Rightarrow> string" where
  "d2 n = [digit_char (n div 10), digit_char (n mod 10)]"

definition d4 :: "int \<Rightarrow> string" where
  "d4 n = d2 (n div 100) @ d2 (n mod 100)"

definition valid_wall :: "naive \<Rightarrow> bool" where
  "valid_wall w =
     (1 \<le> year w \<and> year w \<le> 9999 \<and> 1 \<le> month w \<and> month w \<le> 12
      \<and> 1 \<le> day w \<and> day w \<le> days_in_month (year w) (month w)
      \<and> 0 \<le> hour w \<and> hour w \<le> 23 \<and> 0 \<le> minute w \<and> minute w \<le> 59
      \<and> 0 \<le> second w \<and> second w \<le> 59 \<and> microsecond w = 0)"

definition encoding_B :: "naive \<Rightarrow> char \<Rightarrow> int \<Rightarrow> int \<Rightarrow> string" where
  "encoding_B w sg hh mm =
     d4 (year w) @ ''-'' @ d2 (month w) @ ''-'' @ d2 (day w) @ '' '' @
     d2 (hour w) @ '':'' @ d2 (minute w) @ '':'' @ d2 (second w) @ '' '' @
     [sg] @ d2 hh @ d2 mm"

text \<open>
  What every version of \<open>datetime.fromisoformat\<close> returns on the fixed-width text
  \<open>YYYY-MM-DDTHH:MM:SS\<close> that route files carry.  It stands for the library function in
  the examples only, all of which use that form.
\<close>

definition num2 :: "string \<Rightarrow> nat \<Rightarrow> int" where
  "num2 s i = 10 * digit_val (s ! i) + digit_val (s ! (i + 1))"

definition fromisoformat_basic :: "string \<Rightarrow> naive option" where
  "fromisoformat_basic s =
     (if length s = 19 \<and> s ! 4 = CHR ''-'' \<and> s ! 7 = CHR ''-''
         \<and> s ! 13 = CHR '':'' \<and> s ! 16 = CHR '':''
         \<and> list_all (\<lambda>i. is_digit (s ! i)) [0, 1, 2, 3, 5, 6, 8, 9, 11, 12, 14, 15, 17, 18]
      then
        (let n = \<lparr>year = 100 * num2 s 0 + num2 s 2, month = num2 s 5, day = num2 s 8,
                  hour = num2 s 11, minute = num2 s 14, second = num2 s 17, microsecond = 0\<rparr>
         in if 1 \<le> year n \<and> 1 \<le> month n \<and> month n \<le> 12 \<and> 1 \<le> day n
               \<and> day n \<le> days_in_month (year n) (month n)
               \<and> hour n \<le> 23 \<and> minute n \<le> 59 \<and> second n \<le> 59
            then Some n else None)
      else None)"

text \<open>A stand-in for \<open>to_numeric\<close> on the cells of the examples: whole numbers.\<close>

definition whole_number :: "string option \<Rightarrow> int option" where
  "whole_number c =
     (case c of
        None \<Rightarrow> None
      | Some s \<Rightarrow> (case py_int s of Inl e \<Rightarrow> None | Inr v \<Rightarrow> Some v))"

text \<open>An instant of 2024-01-01 in UTC, and a prepared row.\<close>

definition utc :: "int \<Rightarrow> int \<Rightarrow> int \<Rightarrow> aware" where
  "utc h m s = \<lparr>wall = \<lparr>year = 2024, month = 1, day = 1, hour = h, minute = m, second = s,
                         microsecond = 0\<rparr>, utcoffset = 0\<rparr>"

definition sample :: "string \<Rightarrow> int \<Rightarrow> aware \<Rightarrow> aware \<Rightarrow> int health_row" where
  "sample t v s e = \<lparr>rtype = Some t, rvalue = v, startDate = s, endDate = e, other = []\<rparr>"


definition csv :: "string \<Rightarrow> string \<Rightarrow> string \<Rightarrow> string \<Rightarrow> csv_row" where
  "csv t v s e = \<lparr>c_type = Some t, c_value = Some v, c_startDate = Some s, c_endDate = Some e,
                  c_other = []\<rparr>"


text \<open>A route file, a health table and its prepared rows, and the window of the route.\<close>

definition example_dir :: "(string \<times> string list) list" where
  "example_dir =
     [(''run1.gpx'', [''2024-01-01T10:00:00Z'', ''2024-01-01T10:15:00Z'', ''2024-01-01T10:30:00Z'']),
      (''notes.txt'', [])]"

definition example_csv :: "csv_row list" where
  "example_csv =
     [csv ''VO2Max'' ''40'' ''2024-01-01 10:05:00 +0000'' ''2024-01-01 10:06:00 +0000'',
      csv ''HeartRate'' ''130'' ''2024-01-01 10:10:00 +0000'' ''2024-01-01 10:11:00 +0000'',
      csv ''HeartRate'' ''high'' ''yesterday'' ''today'',
      csv ''HeartRate'' ''131'' ''2024-01-01 10:20:00 +0000'' ''2024-01-01 10:21:00 +0000'',
      csv ''HeartRate'' ''132'' ''2024-01-01 10:29:30 +0000'' ''2024-01-01 10:30:01 +0000'']"

definition example_health :: "int health_row list" where
  "example_health =
     [sample ''VO2Max'' 40 (utc 10 5 0) (utc 10 6 0),
      sample ''HeartRate'' 130 (utc 10 10 0) (utc 10 11 0),
      sample ''HeartRate'' 131 (utc 10 20 0) (utc 10 21 0),
      sample ''HeartRate'' 132 (utc 10 29 30) (utc 10 30 1)]"

definition example_window :: window where
  "example_window = (Some (utc 10 0 0), Some (utc 10 30 0))"

text \<open>
  A row of the table whose type cell is missing, with its prepared row; a table that has a
  column named \<open>workout_date\<close> of its own; and a second route, whose window holds the two
  heart-rate rows that lie within it and no \<open>VO2Max\<close>.
\<close>

definition untyped_row :: csv_row where
  "untyped_row = \<lparr>c_type = None, c_value = Some ''98'',
                   c_startDate = Some ''2024-01-01 10:12:00 +0000'',
                   c_endDate = Some ''2024-01-01 10:13:00 +0000'', c_other = []\<rparr>"

definition labelled_csv :: "csv_row list" where
  "labelled_csv =
     [\<lparr>c_type = Some ''VO2Max'', c_value = Some ''40'',
       c_startDate = Some ''2024-01-01 10:05:00 +0000'',
       c_endDate = Some ''2024-01-01 10:06:00 +0000'',
       c_other = [(''workout_date'', Text ''2023-11-06''), (''sourceName'', Text ''Watch'')]\<rparr>]"

definition untyped_sample :: "int health_row" where
  "untyped_sample = \<lparr>rtype = None, rvalue = 98, startDate = utc 10 12 0, endDate = utc 10 13 0,
                      other = []\<rparr>"

definition two_routes :: "(string \<times> string list) list" where
  "two_routes =
     example_dir @ [(''run2.gpx'', [''2024-01-01T10:08:00Z'', ''2024-01-01T10:25:00Z''])]"

section \<open>Properties of the normalizer\<close>

lemma of_char_digit_char: "0 \<le> d \<Longrightarrow> d \<le> 9 \<Longrightarrow> (of_char (digit_char d) :: nat) = 48 + nat d"
  by (simp add: digit_char_def)

lemma is_digit_digit_char [simp]: "0 \<le> d \<Longrightarrow> d \<le> 9 \<Longrightarrow> is_digit (digit_char d)"
  by (simp add: is_digit_def of_char_digit_char)

lemma digit_val_digit_char [simp]: "0 \<le> d \<Longrightarrow> d \<le> 9 \<Longrightarrow> digit_val (digit_char d) = d"
  by (simp add: digit_val_def of_char_digit_char)

lemma in_range_digit_char [simp]:
  "0 \<le> d \<Longrightarrow> d \<le> 9 \<Longrightarrow> in_range lo hi (digit_char d) = (lo \<le> d \<and> d \<le> hi)"
  by (simp add: in_range_def)

lemma digit_char_neq:
  assumes "0 \<le> d" "d \<le> 9" "\<not> is_digit c"
  shows "digit_char d \<noteq> c" "c \<noteq> digit_char d"
  using assms is_digit_digit_char by metis+

lemma not_digit [simp]: "\<not> is_digit CHR ''-''" "\<not> is_digit CHR '':''" "\<not> is_digit CHR '' ''"
  "\<not> is_digit CHR ''+''"
  by (simp_all add: is_digit_def)

lemma not_digit_us [simp]: "\<not> is_digit CHR ''_''"
  by (simp add: is_digit_def)

lemma digit_char_neq_sep [simp]:
  assumes "0 \<le> d" "d \<le> 9"
  shows "digit_char d \<noteq> CHR ''-''" "digit_char d \<noteq> CHR '':''" "digit_char d \<noteq> CHR '' ''"
  "digit_char d \<noteq> CHR ''+''" "digit_char d \<noteq> CHR ''_''"
  using digit_char_neq(1)[OF assms] by simp_all

lemma re_space_digit_char [simp]: "0 \<le> d \<Longrightarrow> d \<le> 9 \<Longrightarrow> \<not> re_space (digit_char d)"
  by (simp add: re_space_def of_char_digit_char)

lemma int_space_digit_char [simp]: "0 \<le> d \<Longrightarrow> d \<le> 9 \<Longrightarrow> \<not> int_space (digit_char d)"
  by (simp add: int_space_def of_char_digit_char)

lemma in_range_sep [simp]: "\<not> in_range lo hi CHR ''-''" "\<not> in_range lo hi CHR '':''" "\<not> in_range lo hi CHR '' ''"
  by (simp_all add: in_range_def)

lemma month_digits:
  assumes "0 \<le> a" "a \<le> 9" "0 \<le> b" "b \<le> 9" "1 \<le> 10 * a + b" "10 * a + b \<le> 12"
  shows "concat (map (\<lambda>(v, r1). concat (map (f v) (lit CHR ''-'' r1)))
                  (re_m (digit_char a # digit_char b # CHR ''-'' # r)))
         = f (10 * a + b) r"
proof -
  consider "a = 0" | "a = 1" using assms by linarith
  then show ?thesis
  proof cases
    case 1 then show ?thesis using assms by (simp add: re_m_def)
  next
    case 2 then show ?thesis using assms by (simp add: re_m_def)
  qed
qed

lemma day_digits:
  assumes "0 \<le> a" "a \<le> 9" "0 \<le> b" "b \<le> 9" "1 \<le> 10 * a + b" "10 * a + b \<le> 31"
    and "\<not> re_space c"
  shows "concat (map (\<lambda>(v, r1). concat (map (f v) (re_spaces r1)))
                  (re_d (digit_char a # digit_char b # CHR '' '' # c # r)))
         = f (10 * a + b) (c # r)"
proof -
  have sp: "re_space CHR '' ''" by (simp add: re_space_def)
  consider "a = 0" | "a = 1" | "a = 2" | "a = 3" using assms by linarith
  then show ?thesis
  proof cases
    case 1 then show ?thesis using assms sp by (simp add: re_d_def)
  next
    case 2 then show ?thesis using assms sp by (simp add: re_d_def)
  next
    case 3 then show ?thesis using assms sp by (simp add: re_d_def)
  next
    case 4 then show ?thesis using assms sp by (simp add: re_d_def)
  qed
qed

lemma hour_digits:
  assumes "0 \<le> a" "a \<le> 9" "0 \<le> b" "b \<le> 9" "10 * a + b \<le> 23"
  shows "concat (map (\<lambda>(v, r1). concat (map (f v) (lit CHR '':'' r1)))
                  (re_H (digit_char a # digit_char b # CHR '':'' # r)))
         = f (10 * a + b) r"
proof -
  consider "a = 0" | "a = 1" | "a = 2" using assms by linarith
  then show ?thesis
  proof cases
    case 1 then show ?thesis using assms by (simp add: re_H_def)
  next
    case 2 then show ?thesis using assms by (simp add: re_H_def)
  next
    case 3 then show ?thesis using assms by (simp add: re_H_def)
  qed
qed

lemma minute_digits:
  assumes "0 \<le> a" "a \<le> 5" "0 \<le> b" "b \<le> 9"
  shows "concat (map (\<lambda>(v, r1). concat (map (f v) (lit CHR '':'' r1)))
                  (re_M (digit_char a # digit_char b # CHR '':'' # r)))
         = f (10 * a + b) r"
  using assms by (simp add: re_M_def)

lemma second_digits:
  assumes "0 \<le> a" "a \<le> 5" "0 \<le> b" "b \<le> 9"
  shows "re_S [digit_char a, digit_char b] = [(10 * a + b, []), (a, [digit_char b])]"
  using assms by (simp add: re_S_def)

lemma year_digits:
  assumes "0 \<le> a" "a \<le> 9" "0 \<le> b" "b \<le> 9" "0 \<le> c" "c \<le> 9" "0 \<le> d" "d \<le> 9"
  shows "concat (map (\<lambda>(v, r1). concat (map (f v) (lit CHR ''-'' r1)))
                  (re_Y (digit_char a # digit_char b # digit_char c # digit_char d # CHR ''-'' # r)))
         = f (1000 * a + 100 * b + 10 * c + d) r"
  using assms by simp

lemma strptime_digits:
  assumes "0 \<le> y1" "y1 \<le> 9" "0 \<le> y2" "y2 \<le> 9" "0 \<le> y3" "y3 \<le> 9" "0 \<le> y4" "y4 \<le> 9"
    and "0 \<le> m1" "m1 \<le> 9" "0 \<le> m2" "m2 \<le> 9" "1 \<le> 10 * m1 + m2" "10 * m1 + m2 \<le> 12"
    and "0 \<le> e1" "e1 \<le> 9" "0 \<le> e2" "e2 \<le> 9" "1 \<le> 10 * e1 + e2" "10 * e1 + e2 \<le> 31"
    and "0 \<le> H1" "H1 \<le> 9" "0 \<le> H2" "H2 \<le> 9" "10 * H1 + H2 \<le> 23"
    and "0 \<le> M1" "M1 \<le> 5" "0 \<le> M2" "M2 \<le> 9"
    and "0 \<le> S1" "S1 \<le> 5" "0 \<le> S2" "S2 \<le> 9"
  shows "strptime_matches
           (digit_char y1 # digit_char y2 # digit_char y3 # digit_char y4 # CHR ''-'' #
            digit_char m1 # digit_char m2 # CHR ''-'' # digit_char e1 # digit_char e2 # CHR '' '' #
            digit_char H1 # digit_char H2 # CHR '':'' # digit_char M1 # digit_char M2 # CHR '':'' #
            [digit_char S1, digit_char S2])
         = [(\<lparr>year = 1000 * y1 + 100 * y2 + 10 * y3 + y4, month = 10 * m1 + m2, day = 10 * e1 + e2,
              hour = 10 * H1 + H2, minute = 10 * M1 + M2, second = 10 * S1 + S2, microsecond = 0\<rparr>, []),
            (\<lparr>year = 1000 * y1 + 100 * y2 + 10 * y3 + y4, month = 10 * m1 + m2, day = 10 * e1 + e2,
              hour = 10 * H1 + H2, minute = 10 * M1 + M2, second = S1, microsecond = 0\<rparr>, [digit_char S2])]"
  unfolding strptime_matches_def
  apply (subst year_digits[OF assms(1-8)])
  apply (subst month_digits[OF assms(9-14)])
  apply (subst day_digits[OF assms(15-20)])
   apply (simp add: assms)
  apply (subst hour_digits[OF assms(21-25)])
  apply (subst minute_digits[OF assms(26-29)])
  apply (subst second_digits[OF assms(30-33)])
  apply simp
  done

lemma d2_bounds:
  fixes n :: int
  assumes "0 \<le> n" "n \<le> 99"
  shows "0 \<le> n div 10" "n div 10 \<le> 9" "0 \<le> n mod 10" "n mod 10 \<le> 9" "10 * (n div 10) + n mod 10 = n"
  using assms by auto

lemma d4_bounds:
  fixes n :: int
  assumes "0 \<le> n" "n \<le> 9999"
  shows "0 \<le> n div 100" "n div 100 \<le> 99" "0 \<le> n mod 100" "n mod 100 \<le> 99"
  using assms by auto

lemma days_in_month_le: "days_in_month y m \<le> 31"
  by (simp add: days_in_month_def)

lemma four_digits:
  fixes a b c d p q :: int
  assumes "10 * a + b = p" "10 * c + d = q"
  shows "1000 * a + 100 * b + 10 * c + d = 100 * p + q"
  using assms by linarith

lemma strptime_valid:
  assumes "valid_wall w"
  shows "strptime (d4 (year w) @ ''-'' @ d2 (month w) @ ''-'' @ d2 (day w) @ '' '' @
                   d2 (hour w) @ '':'' @ d2 (minute w) @ '':'' @ d2 (second w)) = Inr w"
proof -
  obtain Y Mo D H Mi S us where w:
    "w = \<lparr>year = Y, month = Mo, day = D, hour = H, minute = Mi, second = S, microsecond = us\<rparr>"
    by (cases w)
  have v: "1 \<le> Y" "Y \<le> 9999" "1 \<le> Mo" "Mo \<le> 12" "1 \<le> D" "D \<le> days_in_month Y Mo"
      "0 \<le> H" "H \<le> 23" "0 \<le> Mi" "Mi \<le> 59" "0 \<le> S" "S \<le> 59" "us = 0"
    using assms by (simp_all add: valid_wall_def w)
  have d31: "D \<le> 31" using v(6) days_in_month_le[of Y Mo] by linarith
  have y0: "0 \<le> Y" using v(1) by linarith
  have m0: "0 \<le> Mo" "Mo \<le> 99" using v(3,4) by linarith+
  have d0: "0 \<le> D" "D \<le> 99" using v(5) d31 by linarith+
  have h0: "H \<le> 99" using v(8) by linarith
  have mi0: "Mi \<le> 99" "Mi div 10 \<le> 5" using v(9,10) by auto
  have s0: "S \<le> 99" "S div 10 \<le> 5" using v(11,12) by auto
  note bC = d4_bounds[OF y0 v(2)]
  note bY1 = d2_bounds[OF bC(1,2)]
  note bY2 = d2_bounds[OF bC(3,4)]
  note bMo = d2_bounds[OF m0]
  note bD = d2_bounds[OF d0]
  note bH = d2_bounds[OF v(7) h0]
  note bMi = d2_bounds[OF v(9) mi0(1)]
  note bS = d2_bounds[OF v(11) s0(1)]
  have yy: "1000 * (Y div 100 div 10) + 100 * (Y div 100 mod 10) + 10 * (Y mod 100 div 10)
            + Y mod 100 mod 10 = Y"
    using four_digits[OF bY1(5) bY2(5)] by (simp only: mult_div_mod_eq)
  have mo: "1 \<le> 10 * (Mo div 10) + Mo mod 10" "10 * (Mo div 10) + Mo mod 10 \<le> 12"
    using v(3,4) by (simp_all only: bMo(5))
  have dd: "1 \<le> 10 * (D div 10) + D mod 10" "10 * (D div 10) + D mod 10 \<le> 31"
    using v(5) d31 by (simp_all only: bD(5))
  have hh: "10 * (H div 10) + H mod 10 \<le> 23"
    using v(8) by (simp only: bH(5))
  have m: "strptime_matches
           (digit_char (Y div 100 div 10) # digit_char (Y div 100 mod 10) #
            digit_char (Y mod 100 div 10) # digit_char (Y mod 100 mod 10) # CHR ''-'' #
            digit_char (Mo div 10) # digit_char (Mo mod 10) # CHR ''-'' #
            digit_char (D div 10) # digit_char (D mod 10) # CHR '' '' #
            digit_char (H div 10) # digit_char (H mod 10) # CHR '':'' #
            digit_char (Mi div 10) # digit_char (Mi mod 10) # CHR '':'' #
            [digit_char (S div 10), digit_char (S mod 10)])
         = [(\<lparr>year = Y, month = Mo, day = D, hour = H, minute = Mi, second = S, microsecond = 0\<rparr>, []),
            (\<lparr>year = Y, month = Mo, day = D, hour = H, minute = Mi, second = S div 10, microsecond = 0\<rparr>,
             [digit_char (S mod 10)])]"
    using strptime_digits[OF bY1(1-4) bY2(1-4) bMo(1-4) mo bD(1-4) dd bH(1-4) hh bMi(1) mi0(2) bMi(3,4) bS(1) s0(2) bS(3,4)]
    by (simp only: yy bMo(5) bD(5) bH(5) bMi(5) bS(5))
  have "strptime (digit_char (Y div 100 div 10) # digit_char (Y div 100 mod 10) #
            digit_char (Y mod 100 div 10) # digit_char (Y mod 100 mod 10) # CHR ''-'' #
            digit_char (Mo div 10) # digit_char (Mo mod 10) # CHR ''-'' #
            digit_char (D div 10) # digit_char (D mod 10) # CHR '' '' #
            digit_char (H div 10) # digit_char (H mod 10) # CHR '':'' #
            digit_char (Mi div 10) # digit_char (Mi mod 10) # CHR '':'' #
            [digit_char (S div 10), digit_char (S mod 10)]) = Inr w"
    unfolding strptime_def m using v(1,6,12,13) by (simp add: w)
  then show ?thesis
    by (simp only: w d4_def d2_def naive.simps append_Cons append_Nil)
qed

lemma slice_to_neg_6: "slice_to_neg 6 (p @ [c1, c2, c3, c4, c5, c6]) = p"
  by (simp add: slice_to_neg_def)

lemma slice_from_neg_5: "slice_from_neg 5 (p @ [c1, c2, c3, c4, c5, c6]) = [c2, c3, c4, c5, c6]"
  by (simp add: slice_from_neg_def)

lemma py_int_two_digits:
  assumes "0 \<le> a" "a \<le> 9" "0 \<le> b" "b \<le> 9"
  shows "py_int [digit_char a, digit_char b] = Inr (10 * a + b)"
  using assms by (simp add: py_int_def strip_def)

lemma py_int_d2:
  assumes "0 \<le> n" "n \<le> 99"
  shows "py_int (d2 n) = Inr n"
  using py_int_two_digits[OF d2_bounds(1-4)[OF assms]] d2_bounds(5)[OF assms]
  by (simp add: d2_def)

text \<open>
  C7.  For every valid text of encoding B, written from wall-clock fields \<open>w\<close>, a sign and an
  offset of \<open>hh\<close> hours and \<open>mm\<close> minutes, the normalizer returns an aware value whose
  wall-clock fields are \<open>w\<close> and whose offset from UTC is the signed number of minutes
  \<open>hh * 60 + mm\<close>; rendering that value again at its offset gives back the text.
\<close>

theorem parse_date_with_offset_roundtrip:
  assumes "valid_wall w" and "sg = CHR ''+'' \<or> sg = CHR ''-''"
    and "0 \<le> hh" "hh \<le> 23" "0 \<le> mm" "mm \<le> 59"
  shows "\<exists>r. parse_date_with_offset (encoding_B w sg hh mm) = Inr r
           \<and> wall r = w
           \<and> utcoffset r = (if sg = CHR ''-'' then - (hh * 60 + mm) else hh * 60 + mm)
           \<and> encoding_B (wall r) sg (\<bar>utcoffset r\<bar> div 60) (\<bar>utcoffset r\<bar> mod 60)
               = encoding_B w sg hh mm"
proof -
  let ?p = "d4 (year w) @ ''-'' @ d2 (month w) @ ''-'' @ d2 (day w) @ '' '' @
            d2 (hour w) @ '':'' @ d2 (minute w) @ '':'' @ d2 (second w)"
  let ?off = "if sg = CHR ''-'' then - (hh * 60 + mm) else hh * 60 + mm"
  have e: "encoding_B w sg hh mm
           = ?p @ [CHR '' '', sg, digit_char (hh div 10), digit_char (hh mod 10),
                   digit_char (mm div 10), digit_char (mm mod 10)]"
    by (simp add: encoding_B_def d2_def)
  have hh99: "hh \<le> 99" and mm99: "mm \<le> 99" using assms(4,6) by linarith+
  have h: "py_int [digit_char (hh div 10), digit_char (hh mod 10)] = Inr hh"
    using py_int_d2[OF assms(3) hh99] by (simp add: d2_def)
  have m: "py_int [digit_char (mm div 10), digit_char (mm mod 10)] = Inr mm"
    using py_int_d2[OF assms(5) mm99] by (simp add: d2_def)
  have tz: "- 1440 < hh * 60 + mm" "hh * 60 + mm < 1440"
      "- 1440 < - (hh * 60 + mm)" "- (hh * 60 + mm) < 1440"
    using assms(3-6) by linarith+
  have p: "parse_date_with_offset (encoding_B w sg hh mm) = Inr \<lparr>wall = w, utcoffset = ?off\<rparr>"
    unfolding parse_date_with_offset_def e slice_to_neg_6 slice_from_neg_5 Let_def
      strptime_valid[OF assms(1)]
    using h m tz by (simp add: slice_def timezone_def)
  have a: "\<bar>?off\<bar> = hh * 60 + mm" using assms(3,5) by simp
  have "(hh * 60 + mm) div 60 = hh" "(hh * 60 + mm) mod 60 = mm" using assms(5,6) by simp_all
  then have "encoding_B w sg (\<bar>?off\<bar> div 60) (\<bar>?off\<bar> mod 60) = encoding_B w sg hh mm"
    by (simp only: a)
  then show ?thesis using p by simp
qed

theorem parse_date_with_offset_roundtrip_witness:
  "valid_wall (wall (utc 10 5 0)) \<and> (0::int) \<le> 5 \<and> (5::int) \<le> 23 \<and> (0::int) \<le> 30 \<and> (30::int) \<le> 59
   \<and> encoding_B (wall (utc 10 5 0)) CHR ''-'' 5 30 = ''2024-01-01 10:05:00 -0530''
   \<and> parse_date_with_offset ''2024-01-01 10:05:00 -0530''
       = Inr \<lparr>wall = wall (utc 10 5 0), utcoffset = - 330\<rparr>"
proof -
  have v: "valid_wall (wall (utc 10 5 0))" by code_simp
  have e: "encoding_B (wall (utc 10 5 0)) CHR ''-'' 5 30 = ''2024-01-01 10:05:00 -0530''"
    by code_simp
  obtain r where r: "parse_date_with_offset (encoding_B (wall (utc 10 5 0)) CHR ''-'' 5 30) = Inr r"
      "wall r = wall (utc 10 5 0)" "utcoffset r = - (5 * 60 + 30)"
    using parse_date_with_offset_roundtrip[OF v, of "CHR ''-''" 5 30] by auto
  have "r = \<lparr>wall = wall (utc 10 5 0), utcoffset = - 330\<rparr>" using r(2,3) by (cases r) simp
  then show ?thesis using v e r(1) by simp
qed

section \<open>Properties of rows and their columns\<close>

lemma map_of_dict_set:
  "map_of (dict_set kvs k v) k' = (if k' = k then Some v else map_of kvs k')"
  by (induction kvs) auto

lemma filter_dict_set:
  assumes "\<not> P k"
  shows "filter (\<lambda>(name, c). P name) (dict_set kvs k v) = filter (\<lambda>(name, c). P name) kvs"
  using assms by (induction kvs) auto

lemma set_column_fields [simp]:
  "rtype (set_column name c r) = rtype r"
  "rvalue (set_column name c r) = rvalue r"
  "startDate (set_column name c r) = startDate r"
  "endDate (set_column name c r) = endDate r"
  by (simp_all add: set_column_def)

lemma assign_mid_fields [simp]:
  "rtype (assign_mid a b r) = rtype r"
  "rvalue (assign_mid a b r) = rvalue r"
  "startDate (assign_mid a b r) = startDate r"
  "endDate (assign_mid a b r) = endDate r"
  by (simp_all add: assign_mid_def)

lemma assign_mid_columns [simp]:
  "midStartDate (assign_mid a b r) = Some a"
  "midEndDate (assign_mid a b r) = Some b"
  "workout_date (assign_mid a b r) = workout_date r"
  by (simp_all add: assign_mid_def set_column_def midStartDate_def midEndDate_def
      workout_date_def map_of_dict_set)

lemma workout_date_set_column [simp]:
  "workout_date (set_column ''workout_date'' (Text w) r) = Some w"
  by (simp add: set_column_def workout_date_def map_of_dict_set)

lemma original_set_column:
  assumes "name \<in> set added_columns"
  shows "original (set_column name c r) = original r"
  using assms filter_dict_set[of "\<lambda>n. n \<notin> set added_columns" name "other r" c]
  by (simp add: original_def set_column_def)

lemma original_assign_mid [simp]: "original (assign_mid a b r) = original r"
  by (simp add: assign_mid_def original_set_column added_columns_def)

lemma original_tag [simp]: "original (set_column ''workout_date'' c r) = original r"
  by (simp add: original_set_column added_columns_def)

lemma original_fields:
  assumes "original r' = original r"
  shows "rtype r' = rtype r" "rvalue r' = rvalue r" "startDate r' = startDate r"
    "endDate r' = endDate r"
    "filter (\<lambda>(name, c). name \<notin> set added_columns) (other r')
     = filter (\<lambda>(name, c). name \<notin> set added_columns) (other r)"
proof -
  have "rtype (original r') = rtype (original r)" "rvalue (original r') = rvalue (original r)"
    "startDate (original r') = startDate (original r)" "endDate (original r') = endDate (original r)"
    "other (original r') = other (original r)"
    using assms by simp_all
  then show "rtype r' = rtype r" "rvalue r' = rvalue r" "startDate r' = startDate r"
    "endDate r' = endDate r"
    "filter (\<lambda>(name, c). name \<notin> set added_columns) (other r')
     = filter (\<lambda>(name, c). name \<notin> set added_columns) (other r)"
    by (simp_all add: original_def)
qed

section \<open>Properties of the midpoint partitioner\<close>

lemma length_midDates: "length (midDates s) = length s - 1"
  by (simp add: midDates_def)


lemma length_dateList: "s \<noteq> [] \<Longrightarrow> length (dateList s) = length s + 1"
  by (cases s) (simp_all add: dateList_def length_midDates)





lemma length_type_subgroup:
  "length (type_subgroup df t) = length (filter (type_is t) df)"
  by (simp add: type_subgroup_def sort_values_def)


lemma getMidDates_type_many:
  assumes "2 \<le> length (type_subgroup df t)"
  shows "getMidDates_type df t =
         Inr (map (\<lambda>(r, a, b). assign_mid a b r)
                (zip (type_subgroup df t)
                   (zip (butlast (dateList (map (\<lambda>r. instant (startDate r)) (type_subgroup df t))))
                        (tl (dateList (map (\<lambda>r. instant (startDate r)) (type_subgroup df t)))))))"
proof -
  have "length (type_subgroup df t) \<noteq> 1" "type_subgroup df t \<noteq> []" using assms by auto
  then show ?thesis by (simp add: getMidDates_type_def Let_def)
qed









section \<open>Properties of the interval join\<close>

lemma mask_filter:
  "map fst (filter (\<lambda>(r, keep). keep)
      (zip xs (map (\<lambda>(a, b). a \<and> b) (zip (map P xs) (map Q xs)))))
   = filter (\<lambda>r. P r \<and> Q r) xs"
  by (induction xs) simp_all

lemma select_window_bounds:
  "select_window health_df (Some ws, Some we)
   = Inr (filter (\<lambda>r. instant ws \<le> instant (startDate r) \<and> instant (endDate r) \<le> instant we)
            health_df)"
  using mask_filter[of health_df "\<lambda>r. instant ws \<le> instant (startDate r)"
      "\<lambda>r. instant (endDate r) \<le> instant we"]
  by (simp add: select_window_def comp_def)

lemma mask_subset:
  "set (map fst (filter (\<lambda>(r, keep). keep) (zip xs bs))) \<subseteq> set xs"
proof
  fix x assume "x \<in> set (map fst (filter (\<lambda>(r, keep). keep) (zip xs bs)))"
  then obtain b where "(x, b) \<in> set (zip xs bs)" by auto
  then show "x \<in> set xs" by (rule set_zip_leftD)
qed

lemma select_window_subset:
  assumes "select_window health_df w = Inr g"
  shows "set g \<subseteq> set health_df"
proof -
  obtain bs where "g = map fst (filter (\<lambda>(r, keep). keep) (zip health_df bs))"
    using assms by (auto simp: select_window_def split: sum.splits)
  then show ?thesis by (simp only: mask_subset)
qed

lemma select_window_no_points:
  "select_window health_df (None, None)
   = (if column_dtype (map startDate health_df) = DatetimeTZ
         \<or> column_dtype (map endDate health_df) = DatetimeTZ
      then Inl InvalidComparison else Inr [])"
proof -
  have "map fst (filter (\<lambda>(r, keep). keep)
          (zip health_df (map (\<lambda>(a, b). a \<and> b)
             (zip (map (\<lambda>r. False) health_df) (map (\<lambda>r. False) health_df))))) = []"
    by (simp only: mask_filter) simp
  then show ?thesis
    by (cases "column_dtype (map startDate health_df)"; cases "column_dtype (map endDate health_df)")
      (simp_all add: select_window_def comp_def)
qed

section \<open>Properties of \<open>unique\<close> and of \<open>_getMidDates\<close> as a whole\<close>

lemma set_unique_from: "set (unique_from seen xs) = set xs - set seen"
  by (induction xs arbitrary: seen) auto

lemma distinct_unique_from: "distinct (unique_from seen xs)"
  by (induction xs arbitrary: seen) (auto simp: set_unique_from)

lemma set_unique [simp]: "set (unique xs) = set xs"
  by (simp add: unique_def set_unique_from)

lemma distinct_unique [simp]: "distinct (unique xs)"
  by (simp add: unique_def distinct_unique_from)

lemma getMidDates_type_shape:
  assumes "type_subgroup df t \<noteq> []"
  shows "\<exists>ms. length ms = length (type_subgroup df t)
           \<and> getMidDates_type df t
               = Inr (map (\<lambda>(r, a, b). assign_mid a b r) (zip (type_subgroup df t) ms))"
proof (cases "length (type_subgroup df t) = 1")
  case True
  then obtain x where x: "type_subgroup df t = [x]"
    by (cases "type_subgroup df t") simp_all
  let ?ms = "[(instant (startDate x), instant (endDate x))]"
  have 1: "length ?ms = length (type_subgroup df t)" by (simp add: x)
  have 2: "getMidDates_type df t
        = Inr (map (\<lambda>(r, a, b). assign_mid a b r) (zip (type_subgroup df t) ?ms))"
    by (simp add: getMidDates_type_def x)
  from 1 2 show ?thesis by (rule exI[of _ ?ms, OF conjI])
next
  case False
  have "length (type_subgroup df t) \<noteq> 0" using assms by simp
  with False have two: "2 \<le> length (type_subgroup df t)" by linarith
  let ?s = "map (\<lambda>r. instant (startDate r)) (type_subgroup df t)"
  let ?ms = "zip (butlast (dateList ?s)) (tl (dateList ?s))"
  have ne: "?s \<noteq> []" using assms by simp
  have "length (dateList ?s) = length (type_subgroup df t) + 1"
    using length_dateList[OF ne] by simp
  then have 1: "length ?ms = length (type_subgroup df t)" by simp
  from 1 getMidDates_type_many[OF two] show ?thesis by (rule exI[of _ ?ms, OF conjI])
qed

lemma type_subgroup_nonempty:
  assumes "t \<noteq> None" "t \<in> set (map rtype df)"
  shows "type_subgroup df t \<noteq> []"
proof -
  have "filter (type_is t) df \<noteq> []" using assms by (auto simp: filter_empty_conv type_is_def)
  then have "length (type_subgroup df t) \<noteq> 0" by (simp add: length_type_subgroup)
  then show ?thesis by auto
qed

lemma type_subgroup_missing: "type_subgroup df None = []"
  by (simp add: type_subgroup_def sort_values_def type_is_def)

lemma getMidDates_type_missing: "getMidDates_type df None = Inl IndexError"
  by (simp add: getMidDates_type_def type_subgroup_missing)

lemma assigned_original:
  assumes "length ms = length xs"
  shows "map original (map (\<lambda>(r, a, b). assign_mid a b r) (zip xs ms)) = map original xs"
  using assms by (induction xs ms rule: list_induct2') (auto split: prod.splits)

lemma assigned_workout_date:
  assumes "length ms = length xs"
  shows "map workout_date (map (\<lambda>(r, a, b). assign_mid a b r) (zip xs ms)) = map workout_date xs"
  using assms by (induction xs ms rule: list_induct2') (auto split: prod.splits)

lemma assigned_mid_set:
  assumes "o' \<in> set (map (\<lambda>(r, a, b). assign_mid a b r) (zip xs ms))"
  shows "midStartDate o' \<noteq> None \<and> midEndDate o' \<noteq> None"
  using assms by auto

lemma getMidDates_type_ok:
  assumes "t \<noteq> None" "t \<in> set (map rtype df)"
  shows "\<exists>out. getMidDates_type df t = Inr out
           \<and> map original out = map original (type_subgroup df t)
           \<and> map workout_date out = map workout_date (type_subgroup df t)
           \<and> (\<forall>o' \<in> set out. midStartDate o' \<noteq> None \<and> midEndDate o' \<noteq> None)"
proof -
  obtain ms where ms: "length ms = length (type_subgroup df t)"
    "getMidDates_type df t
       = Inr (map (\<lambda>(r, a, b). assign_mid a b r) (zip (type_subgroup df t) ms))"
    using getMidDates_type_shape[OF type_subgroup_nonempty[OF assms]] by blast
  show ?thesis
    using ms(2) assigned_original[OF ms(1)] assigned_workout_date[OF ms(1)] assigned_mid_set
    by blast
qed

lemma getMidDates_loop_ok:
  assumes "set ts \<subseteq> set (map rtype df)" "None \<notin> set ts"
  shows "getMidDates_loop df ts acc = Inr (acc @ map (\<lambda>t. projr (getMidDates_type df t)) ts)"
  using assms
proof (induction ts arbitrary: acc)
  case Nil
  then show ?case by simp
next
  case (Cons t ts)
  have "t \<in> set (map rtype df)" using Cons.prems(1) by simp
  moreover have "t \<noteq> None" using Cons.prems(2) by (metis list.set_intros(1))
  ultimately obtain out where "getMidDates_type df t = Inr out"
    using getMidDates_type_ok by blast
  then show ?case using Cons by simp
qed

lemma getMidDates_loop_missing:
  assumes "set ts \<subseteq> set (map rtype df)" "None \<in> set ts"
  shows "getMidDates_loop df ts acc = Inl IndexError"
  using assms
proof (induction ts arbitrary: acc)
  case Nil
  then show ?case by simp
next
  case (Cons t ts)
  show ?case
  proof (cases t)
    case None
    then show ?thesis by (simp add: getMidDates_type_missing)
  next
    case (Some s)
    then have "t \<noteq> None" "t \<in> set (map rtype df)" using Cons.prems by auto
    then obtain out where "getMidDates_type df t = Inr out"
      using getMidDates_type_ok by blast
    moreover have "None \<in> set ts" using Cons.prems Some by auto
    ultimately show ?thesis using Cons by simp
  qed
qed

lemma getMidDates_ok:
  assumes "df \<noteq> []" "None \<notin> set (map rtype df)"
  shows "getMidDates df
         = Inr (concat (map (\<lambda>t. projr (getMidDates_type df t)) (unique (map rtype df))))"
proof -
  have "unique (map rtype df) \<noteq> []"
    using assms(1) by (metis list.map_disc_iff set_empty set_unique)
  moreover have "getMidDates_loop df (unique (map rtype df)) []
                 = Inr ([] @ map (\<lambda>t. projr (getMidDates_type df t)) (unique (map rtype df)))"
    by (rule getMidDates_loop_ok) (use assms(2) in simp_all)
  ultimately show ?thesis
    by (simp add: getMidDates_def pd_concat_def)
qed

lemma getMidDates_missing_type:
  assumes "None \<in> set (map rtype df)"
  shows "getMidDates df = Inl IndexError"
proof -
  have "getMidDates_loop df (unique (map rtype df)) [] = Inl IndexError"
    by (rule getMidDates_loop_missing) (use assms in simp_all)
  then show ?thesis by (simp add: getMidDates_def)
qed

lemma getMidDates_Inr:
  assumes "getMidDates df = Inr out"
  shows "df \<noteq> []" "None \<notin> set (map rtype df)"
proof -
  show "None \<notin> set (map rtype df)" using assms getMidDates_missing_type by fastforce
  show "df \<noteq> []"
  proof
    assume "df = []"
    then have "getMidDates df = Inl NoObjectsToConcatenate"
      by (simp add: getMidDates_def unique_def pd_concat_def)
    then show False using assms by simp
  qed
qed

lemma mset_filter_disjoint:
  assumes "\<And>x. \<not> (P x \<and> Q x)"
  shows "mset (filter P xs) + mset (filter Q xs) = mset (filter (\<lambda>x. P x \<or> Q x) xs)"
  using assms by (induction xs) auto

lemma mset_concat_by_type:
  assumes "distinct ts"
  shows "mset (concat (map (\<lambda>t. filter (\<lambda>r. f r = t) xs) ts)) = mset (filter (\<lambda>r. f r \<in> set ts) xs)"
  using assms
proof (induction ts)
  case Nil
  then show ?case by simp
next
  case (Cons t ts)
  have "\<And>x. \<not> (f x = t \<and> f x \<in> set ts)" using Cons.prems by auto
  from mset_filter_disjoint[of "\<lambda>r. f r = t" "\<lambda>r. f r \<in> set ts", OF this]
  show ?case using Cons by simp
qed

lemma mset_type_subgroup:
  "t \<noteq> None \<Longrightarrow> mset (type_subgroup df t) = mset (filter (\<lambda>r. rtype r = t) df)"
  by (simp add: type_subgroup_def sort_values_def type_is_def)

lemma mset_concat_cong:
  assumes "\<And>t. t \<in> set ts \<Longrightarrow> mset (g t) = mset (h t)"
  shows "mset (concat (map g ts)) = mset (concat (map h ts))"
  using assms by (induction ts) simp_all

lemma mset_type_subgroups:
  assumes "None \<notin> set (map rtype df)"
  shows "mset (concat (map (type_subgroup df) (unique (map rtype df)))) = mset df"
proof -
  have "\<And>t. t \<in> set (unique (map rtype df)) \<Longrightarrow> t \<noteq> None"
    using assms by (metis set_unique)
  then have "mset (concat (map (type_subgroup df) (unique (map rtype df))))
        = mset (concat (map (\<lambda>t. filter (\<lambda>r. rtype r = t) df) (unique (map rtype df))))"
    by (intro mset_concat_cong mset_type_subgroup)
  also have "\<dots> = mset (filter (\<lambda>r. rtype r \<in> set (unique (map rtype df))) df)"
    by (rule mset_concat_by_type) simp
  also have "\<dots> = mset df" by simp
  finally show ?thesis .
qed

lemma map_concat_cong:
  assumes "\<And>t. t \<in> set ts \<Longrightarrow> map f (g t) = map f (h t)"
  shows "map f (concat (map g ts)) = map f (concat (map h ts))"
  using assms by (induction ts) simp_all

lemma getMidDates_columns:
  assumes "df \<noteq> []" "None \<notin> set (map rtype df)"
  shows "\<exists>out. getMidDates df = Inr out
           \<and> map original out = map original (concat (map (type_subgroup df) (unique (map rtype df))))
           \<and> map workout_date out
               = map workout_date (concat (map (type_subgroup df) (unique (map rtype df))))
           \<and> (\<forall>o' \<in> set out. midStartDate o' \<noteq> None \<and> midEndDate o' \<noteq> None)"
proof -
  let ?ts = "unique (map rtype df)"
  let ?g = "\<lambda>t. projr (getMidDates_type df t)"
  let ?out = "concat (map ?g ?ts)"
  have each: "map original (?g t) = map original (type_subgroup df t)"
      "map workout_date (?g t) = map workout_date (type_subgroup df t)"
      "\<forall>o' \<in> set (?g t). midStartDate o' \<noteq> None \<and> midEndDate o' \<noteq> None"
    if "t \<in> set ?ts" for t
  proof -
    have t: "t \<in> set (map rtype df)" using that by simp
    then have "t \<noteq> None" using assms(2) by metis
    from getMidDates_type_ok[OF this t] obtain out where
      o: "getMidDates_type df t = Inr out"
        "map original out = map original (type_subgroup df t)"
        "map workout_date out = map workout_date (type_subgroup df t)"
        "\<forall>o' \<in> set out. midStartDate o' \<noteq> None \<and> midEndDate o' \<noteq> None"
      by blast
    show "map original (?g t) = map original (type_subgroup df t)" using o(1,2) by simp
    show "map workout_date (?g t) = map workout_date (type_subgroup df t)" using o(1,3) by simp
    show "\<forall>o' \<in> set (?g t). midStartDate o' \<noteq> None \<and> midEndDate o' \<noteq> None"
      using o(1,4) by simp
  qed
  have 1: "getMidDates df = Inr ?out" by (rule getMidDates_ok[OF assms])
  have 2: "map original ?out = map original (concat (map (type_subgroup df) ?ts))"
    by (rule map_concat_cong) (rule each(1))
  have 3: "map workout_date ?out = map workout_date (concat (map (type_subgroup df) ?ts))"
    by (rule map_concat_cong) (rule each(2))
  have 4: "\<forall>o' \<in> set ?out. midStartDate o' \<noteq> None \<and> midEndDate o' \<noteq> None"
    using each(3) by auto
  show ?thesis using 1 2 3 4 by blast
qed

lemma getMidDates_mset:
  assumes "df \<noteq> []" "None \<notin> set (map rtype df)"
  shows "\<exists>out. getMidDates df = Inr out
           \<and> mset (map original out) = mset (map original df)
           \<and> set (map workout_date out) = set (map workout_date df)
           \<and> (\<forall>o' \<in> set out. midStartDate o' \<noteq> None \<and> midEndDate o' \<noteq> None)"
proof -
  obtain out where o: "getMidDates df = Inr out"
      "map original out = map original (concat (map (type_subgroup df) (unique (map rtype df))))"
      "map workout_date out
         = map workout_date (concat (map (type_subgroup df) (unique (map rtype df))))"
      "\<forall>o' \<in> set out. midStartDate o' \<noteq> None \<and> midEndDate o' \<noteq> None"
    using getMidDates_columns[OF assms] by blast
  have "mset (map original out) = image_mset original (mset (concat (map (type_subgroup df) (unique (map rtype df)))))"
    by (simp only: o(2) mset_map)
  then have a: "mset (map original out) = mset (map original df)"
    by (simp only: mset_type_subgroups[OF assms(2)] mset_map)
  have "mset (map workout_date out) = image_mset workout_date (mset (concat (map (type_subgroup df) (unique (map rtype df)))))"
    by (simp only: o(3) mset_map)
  then have "mset (map workout_date out) = mset (map workout_date df)"
    by (simp only: mset_type_subgroups[OF assms(2)] mset_map)
  then have b: "set (map workout_date out) = set (map workout_date df)" by (rule mset_eq_setD)
  show ?thesis using o(1,4) a b by blast
qed

section \<open>Properties of the preparation step\<close>

lemma numeric_rows_filter:
  "numeric_rows f (filter (\<lambda>r. f (c_value r) \<noteq> None) health_df) = numeric_rows f health_df"
  by (induction health_df) (auto simp: numeric_rows_def List.map_filter_simps)

lemma numeric_rows_eq:
  "numeric_rows f health_df
   = map (\<lambda>r. (r, the (f (c_value r)))) (filter (\<lambda>r. f (c_value r) \<noteq> None) health_df)"
  by (induction health_df) (auto simp: numeric_rows_def List.map_filter_simps)

lemma apply_parse_length: "apply_parse cs = Inr ds \<Longrightarrow> length ds = length cs"
  by (induction cs arbitrary: ds) (auto split: sum.splits)

lemma apply_parse_each:
  "apply_parse cs = Inr ds \<Longrightarrow> map parse_cell cs = map Inr ds"
  by (induction cs arbitrary: ds) (auto split: sum.splits)

lemma prepare_health_data_rows:
  assumes "prepare_health_data f health_df = Inr health"
  shows "map (\<lambda>h. (rtype h, rvalue h, other h)) health
         = map (\<lambda>r. (c_type r, the (f (c_value r)), c_other r))
             (filter (\<lambda>r. f (c_value r) \<noteq> None) health_df)"
    and "map (\<lambda>h. Inr (startDate h)) health
         = map (\<lambda>r. parse_cell (c_startDate r))
             (filter (\<lambda>r. f (c_value r) \<noteq> None) health_df)"
    and "map (\<lambda>h. Inr (endDate h)) health
         = map (\<lambda>r. parse_cell (c_endDate r))
             (filter (\<lambda>r. f (c_value r) \<noteq> None) health_df)"
proof -
  let ?rows = "numeric_rows f health_df"
  let ?kept = "filter (\<lambda>r. f (c_value r) \<noteq> None) health_df"
  obtain starts ends where
    s: "apply_parse (map (\<lambda>(r, v). c_startDate r) ?rows) = Inr starts" and
    e: "apply_parse (map (\<lambda>(r, v). c_endDate r) ?rows) = Inr ends" and
    h: "health = map (\<lambda>((r, v), s, e).
                         \<lparr>rtype = c_type r, rvalue = v, startDate = s, endDate = e,
                          other = c_other r\<rparr>)
                      (zip ?rows (zip starts ends))"
    using assms by (auto simp: prepare_health_data_def Let_def split: sum.splits)
  have ls: "length starts = length ?rows" using apply_parse_length[OF s] by simp
  have le: "length ends = length ?rows" using apply_parse_length[OF e] by simp
  have fst_zip: "map fst (zip ?rows (zip starts ends)) = ?rows" using ls le by simp
  have s_zip: "map (\<lambda>x. fst (snd x)) (zip ?rows (zip starts ends)) = starts"
    using ls le by (simp add: map_fst_zip map_snd_zip flip: map_map[unfolded comp_def])
  have e_zip: "map (\<lambda>x. snd (snd x)) (zip ?rows (zip starts ends)) = ends"
    using ls le by (simp add: map_snd_zip flip: map_map[unfolded comp_def])
  have "map (\<lambda>h. (rtype h, rvalue h, other h)) health
        = map (\<lambda>(r, v). (c_type r, v, c_other r)) (map fst (zip ?rows (zip starts ends)))"
    by (simp add: h case_prod_beta)
  also have "\<dots> = map (\<lambda>(r, v). (c_type r, v, c_other r)) ?rows" by (simp only: fst_zip)
  finally show "map (\<lambda>h. (rtype h, rvalue h, other h)) health
         = map (\<lambda>r. (c_type r, the (f (c_value r)), c_other r)) ?kept"
    by (simp add: numeric_rows_eq)
  have "map (\<lambda>h. Inr (startDate h) :: error + aware) health
        = map Inr (map (\<lambda>x. fst (snd x)) (zip ?rows (zip starts ends)))"
    by (simp add: h case_prod_beta)
  also have "\<dots> = map Inr starts" by (simp only: s_zip)
  also have "\<dots> = map parse_cell (map (\<lambda>(r, v). c_startDate r) ?rows)"
    using apply_parse_each[OF s] by simp
  finally show "map (\<lambda>h. Inr (startDate h)) health
         = map (\<lambda>r. parse_cell (c_startDate r)) ?kept"
    by (simp add: numeric_rows_eq comp_def)
  have "map (\<lambda>h. Inr (endDate h) :: error + aware) health
        = map Inr (map (\<lambda>x. snd (snd x)) (zip ?rows (zip starts ends)))"
    by (simp add: h case_prod_beta)
  also have "\<dots> = map Inr ends" by (simp only: e_zip)
  also have "\<dots> = map parse_cell (map (\<lambda>(r, v). c_endDate r) ?rows)"
    using apply_parse_each[OF e] by simp
  finally show "map (\<lambda>h. Inr (endDate h)) health
         = map (\<lambda>r. parse_cell (c_endDate r)) ?kept"
    by (simp add: numeric_rows_eq comp_def)
qed

section \<open>Properties of the loop over the windows\<close>

lemma join_step:
  assumes "select_window health_df w = Inr g"
  shows "Some ''VO2Max'' \<notin> set (map rtype g) \<Longrightarrow>
           join_loop health_df ((wid, w) # rest) res = join_loop health_df rest res"
    and "Some ''VO2Max'' \<in> set (map rtype g) \<Longrightarrow> None \<in> set (map rtype g) \<Longrightarrow>
           join_loop health_df ((wid, w) # rest) res = Inl IndexError"
    and "Some ''VO2Max'' \<in> set (map rtype g) \<Longrightarrow> None \<notin> set (map rtype g) \<Longrightarrow>
           \<exists>df. getMidDates (map (set_column ''workout_date'' (Text wid)) g) = Inr df
             \<and> join_loop health_df ((wid, w) # rest) res = join_loop health_df rest (res @ [df])
             \<and> mset (map original df) = mset (map original g)
             \<and> (\<forall>r \<in> set df. workout_date r = Some wid
                    \<and> midStartDate r \<noteq> None \<and> midEndDate r \<noteq> None)"
proof -
  let ?tagged = "map (set_column ''workout_date'' (Text wid)) g"
  have ty: "map rtype ?tagged = map rtype g" by simp
  show "Some ''VO2Max'' \<notin> set (map rtype g) \<Longrightarrow>
           join_loop health_df ((wid, w) # rest) res = join_loop health_df rest res"
    using assms by simp
  show "join_loop health_df ((wid, w) # rest) res = Inl IndexError"
    if v: "Some ''VO2Max'' \<in> set (map rtype g)" and m: "None \<in> set (map rtype g)"
  proof -
    have "None \<in> set (map rtype ?tagged)" using m ty by metis
    then have "getMidDates ?tagged = Inl IndexError" by (rule getMidDates_missing_type)
    then show ?thesis using assms v by simp
  qed
  show "\<exists>df. getMidDates ?tagged = Inr df
             \<and> join_loop health_df ((wid, w) # rest) res = join_loop health_df rest (res @ [df])
             \<and> mset (map original df) = mset (map original g)
             \<and> (\<forall>r \<in> set df. workout_date r = Some wid
                    \<and> midStartDate r \<noteq> None \<and> midEndDate r \<noteq> None)"
    if v: "Some ''VO2Max'' \<in> set (map rtype g)" and m: "None \<notin> set (map rtype g)"
  proof -
    have ne: "?tagged \<noteq> []" using v by auto
    have m': "None \<notin> set (map rtype ?tagged)" using m ty by metis
    obtain df where d: "getMidDates ?tagged = Inr df"
        "mset (map original df) = mset (map original ?tagged)"
        "set (map workout_date df) = set (map workout_date ?tagged)"
        "\<forall>o' \<in> set df. midStartDate o' \<noteq> None \<and> midEndDate o' \<noteq> None"
      using getMidDates_mset[OF ne m'] by blast
    have 1: "join_loop health_df ((wid, w) # rest) res = join_loop health_df rest (res @ [df])"
      using assms v d(1) by simp
    have 2: "mset (map original df) = mset (map original g)"
      using d(2) by (simp add: comp_def)
    have "set (map workout_date df) \<subseteq> {Some wid}" using d(3) by auto
    then have 3: "\<forall>r \<in> set df. workout_date r = Some wid" by auto
    show ?thesis using d(1) 1 2 3 d(4) by blast
  qed
qed

lemma join_loop_frame:
  assumes "join_loop health_df wds res = Inr res'"
    and "\<forall>df \<in> set res. \<forall>r' \<in> set df.
           (\<exists>r \<in> set health_df. original r' = original r)
           \<and> workout_date r' \<noteq> None \<and> midStartDate r' \<noteq> None \<and> midEndDate r' \<noteq> None"
  shows "\<forall>df \<in> set res'. \<forall>r' \<in> set df.
           (\<exists>r \<in> set health_df. original r' = original r)
           \<and> workout_date r' \<noteq> None \<and> midStartDate r' \<noteq> None \<and> midEndDate r' \<noteq> None"
  using assms
proof (induction wds arbitrary: res)
  case Nil
  then show ?case by simp
next
  case (Cons ww wds)
  obtain wid w where ww: "ww = (wid, w)" by (cases ww)
  obtain g where g: "select_window health_df w = Inr g"
    using Cons.prems(1) by (cases "select_window health_df w") (simp_all add: ww)
  show ?case
  proof (cases "Some ''VO2Max'' \<in> set (map rtype g)")
    case False
    then have "join_loop health_df wds res = Inr res'"
      using Cons.prems(1) join_step(1)[OF g, of wid wds res] by (simp add: ww)
    then show ?thesis using Cons.IH Cons.prems(2) by blast
  next
    case True
    have m: "None \<notin> set (map rtype g)"
    proof
      assume "None \<in> set (map rtype g)"
      from join_step(2)[OF g True this, of wid wds res] show False
        using Cons.prems(1) by (simp add: ww)
    qed
    obtain df where df: "join_loop health_df ((wid, w) # wds) res = join_loop health_df wds (res @ [df])"
        "mset (map original df) = mset (map original g)"
        "\<forall>r \<in> set df. workout_date r = Some wid \<and> midStartDate r \<noteq> None \<and> midEndDate r \<noteq> None"
      using join_step(3)[OF g True m, of wid wds res] by blast
    have sub: "set g \<subseteq> set health_df" by (rule select_window_subset[OF g])
    have "set (map original df) = set (map original g)" using df(2) by (rule mset_eq_setD)
    then have "\<forall>r' \<in> set df. \<exists>r \<in> set health_df. original r' = original r"
      using sub by auto
    then have "\<forall>d \<in> set (res @ [df]). \<forall>r' \<in> set d.
           (\<exists>r \<in> set health_df. original r' = original r)
           \<and> workout_date r' \<noteq> None \<and> midStartDate r' \<noteq> None \<and> midEndDate r' \<noteq> None"
      using Cons.prems(2) df(3) by auto
    moreover have "join_loop health_df wds (res @ [df]) = Inr res'"
      using Cons.prems(1) df(1) by (simp only: ww)
    ultimately show ?thesis using Cons.IH by blast
  qed
qed

lemma join_loop_none_qualifies:
  assumes "\<forall>(wid, w) \<in> set wds. \<exists>g. select_window health_df w = Inr g \<and> Some ''VO2Max'' \<notin> set (map rtype g)"
  shows "join_loop health_df wds res = Inr res"
  using assms
proof (induction wds)
  case Nil
  then show ?case by simp
next
  case (Cons ww wds)
  obtain wid w where ww: "ww = (wid, w)" by (cases ww)
  obtain g where g: "select_window health_df w = Inr g" "Some ''VO2Max'' \<notin> set (map rtype g)"
    using Cons.prems by (auto simp: ww)
  have "join_loop health_df wds res = Inr res" using Cons by simp
  then show ?case using join_step(1)[OF g, of wid wds res] by (simp only: ww)
qed

lemma join_loop_result:
  assumes "join_loop health_df wds res = Inr res'"
  shows "res' = res @
           map (\<lambda>(wid, w). projr (getMidDates (map (set_column ''workout_date'' (Text wid))
                                                  (projr (select_window health_df w)))))
             (filter (\<lambda>(wid, w). Some ''VO2Max'' \<in> set (map rtype (projr (select_window health_df w))))
                wds)"
  using assms
proof (induction wds arbitrary: res)
  case Nil
  then show ?case by simp
next
  case (Cons ww wds)
  obtain wid w where ww: "ww = (wid, w)" by (cases ww)
  obtain g where g: "select_window health_df w = Inr g"
    using Cons.prems(1) by (cases "select_window health_df w") (simp_all add: ww)
  show ?case
  proof (cases "Some ''VO2Max'' \<in> set (map rtype g)")
    case False
    then have "join_loop health_df wds res = Inr res'"
      using Cons.prems(1) join_step(1)[OF g, of wid wds res] by (simp add: ww)
    from Cons.IH[OF this] show ?thesis using False g by (simp add: ww)
  next
    case True
    have m: "None \<notin> set (map rtype g)"
    proof
      assume "None \<in> set (map rtype g)"
      from join_step(2)[OF g True this, of wid wds res] show False
        using Cons.prems(1) by (simp add: ww)
    qed
    obtain df where df: "getMidDates (map (set_column ''workout_date'' (Text wid)) g) = Inr df"
        "join_loop health_df ((wid, w) # wds) res = join_loop health_df wds (res @ [df])"
      using join_step(3)[OF g True m, of wid wds res] by blast
    have "join_loop health_df wds (res @ [df]) = Inr res'"
      using Cons.prems(1) df(2) by (simp only: ww)
    from Cons.IH[OF this] show ?thesis using True g df(1) by (simp add: ww)
  qed
qed

lemma join_loop_frames:
  assumes "join_loop health_df wds res = Inr res'"
  shows "\<exists>frames. concat res' = concat res @ concat frames
           \<and> list_all2 (\<lambda>(wid, w) frame.
                 \<exists>g. select_window health_df w = Inr g
                    \<and> (if Some ''VO2Max'' \<in> set (unique (map rtype g))
                       then mset (map original frame) = mset (map original g)
                            \<and> (\<forall>r \<in> set frame. workout_date r = Some wid)
                       else frame = [])) wds frames"
  using assms
proof (induction wds arbitrary: res)
  case Nil
  then show ?case by simp
next
  case (Cons ww wds)
  obtain wid w where ww: "ww = (wid, w)" by (cases ww)
  obtain g where g: "select_window health_df w = Inr g"
    using Cons.prems(1) by (cases "select_window health_df w") (simp_all add: ww)
  show ?case
  proof (cases "Some ''VO2Max'' \<in> set (map rtype g)")
    case False
    then have "join_loop health_df wds res = Inr res'"
      using Cons.prems(1) join_step(1)[OF g, of wid wds res] by (simp add: ww)
    from Cons.IH[OF this] obtain frames where f: "concat res' = concat res @ concat frames"
      "list_all2 (\<lambda>(wid, w) frame.
                 \<exists>g. select_window health_df w = Inr g
                    \<and> (if Some ''VO2Max'' \<in> set (unique (map rtype g))
                       then mset (map original frame) = mset (map original g)
                            \<and> (\<forall>r \<in> set frame. workout_date r = Some wid)
                       else frame = [])) wds frames"
      by blast
    show ?thesis
      using f g False by (intro exI[of _ "[] # frames"]) (simp add: ww)
  next
    case True
    have m: "None \<notin> set (map rtype g)"
    proof
      assume "None \<in> set (map rtype g)"
      from join_step(2)[OF g True this, of wid wds res] show False
        using Cons.prems(1) by (simp add: ww)
    qed
    obtain df where df:
        "join_loop health_df ((wid, w) # wds) res = join_loop health_df wds (res @ [df])"
        "mset (map original df) = mset (map original g)"
        "\<forall>r \<in> set df. workout_date r = Some wid \<and> midStartDate r \<noteq> None \<and> midEndDate r \<noteq> None"
      using join_step(3)[OF g True m, of wid wds res] by blast
    have "join_loop health_df wds (res @ [df]) = Inr res'"
      using Cons.prems(1) df(1) by (simp only: ww)
    from Cons.IH[OF this] obtain frames where f: "concat res' = concat (res @ [df]) @ concat frames"
      "list_all2 (\<lambda>(wid, w) frame.
                 \<exists>g. select_window health_df w = Inr g
                    \<and> (if Some ''VO2Max'' \<in> set (unique (map rtype g))
                       then mset (map original frame) = mset (map original g)
                            \<and> (\<forall>r \<in> set frame. workout_date r = Some wid)
                       else frame = [])) wds frames"
      by blast
    show ?thesis
      using f g True df(2,3) by (intro exI[of _ "df # frames"]) (simp add: ww)
  qed
qed

lemma join_loop_total:
  assumes "\<forall>(wid, w) \<in> set wds. \<exists>g. select_window health_df w = Inr g
             \<and> (Some ''VO2Max'' \<in> set (map rtype g) \<longrightarrow> None \<notin> set (map rtype g))"
  shows "\<exists>res'. join_loop health_df wds res = Inr res'"
  using assms
proof (induction wds arbitrary: res)
  case Nil
  then show ?case by simp
next
  case (Cons ww wds)
  obtain wid w where ww: "ww = (wid, w)" by (cases ww)
  obtain g where g: "select_window health_df w = Inr g"
      "Some ''VO2Max'' \<in> set (map rtype g) \<longrightarrow> None \<notin> set (map rtype g)"
    using Cons.prems by (auto simp: ww)
  have rest: "\<And>res. \<exists>res'. join_loop health_df wds res = Inr res'"
    using Cons by simp
  show ?case
  proof (cases "Some ''VO2Max'' \<in> set (map rtype g)")
    case False
    from join_step(1)[OF g(1) False, of wid wds res] show ?thesis using rest by (simp only: ww)
  next
    case True
    then have "None \<notin> set (map rtype g)" using g(2) by simp
    from join_step(3)[OF g(1) True this, of wid wds res] obtain df where
      "join_loop health_df ((wid, w) # wds) res = join_loop health_df wds (res @ [df])"
      by blast
    then show ?thesis using rest by (simp only: ww)
  qed
qed

lemma run_returns:
  assumes "process_workout_routes_dir fromiso dir = Inr wds"
    and "prepare_health_data f health_csv = Inr health"
    and "\<forall>(wid, w) \<in> set wds. \<exists>g. select_window health w = Inr g
             \<and> (Some ''VO2Max'' \<in> set (map rtype g) \<longrightarrow> None \<notin> set (map rtype g))"
    and "\<exists>(wid, w) \<in> set wds. \<exists>g. select_window health w = Inr g
             \<and> Some ''VO2Max'' \<in> set (map rtype g)"
  shows "\<exists>out. filter_health_export fromiso f dir health_csv = Inr out"
proof -
  obtain res where j: "join_loop health wds [] = Inr res"
    using join_loop_total[OF assms(3)] by blast
  obtain wid w g where q: "(wid, w) \<in> set wds" "select_window health w = Inr g"
      "Some ''VO2Max'' \<in> set (map rtype g)"
    using assms(4) by auto
  then have "(wid, w) \<in> set (filter (\<lambda>(wid, w).
                 Some ''VO2Max'' \<in> set (map rtype (projr (select_window health w)))) wds)"
    by simp
  then have "filter (\<lambda>(wid, w).
                 Some ''VO2Max'' \<in> set (map rtype (projr (select_window health w)))) wds \<noteq> []"
    by (metis empty_iff empty_set)
  then have "res \<noteq> []" using join_loop_result[OF j] by simp
  then show ?thesis
    using assms(1,2) j by (simp add: filter_health_export_def pd_concat_def)
qed

section \<open>The claims about the pipeline\<close>

text \<open>
  C4.  For a window with both bounds defined and a prepared table, a row is selected into
  the window's group if and only if it is a row of the table whose \<open>startDate\<close> is not
  before the window's start and whose \<open>endDate\<close> is not after the window's end.  A row
  that overlaps the window but crosses one of its bounds is therefore left out.
\<close>

theorem containment:
  "\<exists>g. select_window health_df (Some ws, Some we) = Inr g
      \<and> (\<forall>S. S \<in> set g \<longleftrightarrow>
             S \<in> set health_df \<and> instant (startDate S) \<ge> instant ws
             \<and> instant (endDate S) \<le> instant we)"
  by (simp add: select_window_bounds)

theorem containment_witness:
  "select_window example_health example_window = Inr (take 3 example_health)
   \<and> instant (startDate (example_health ! 3)) \<ge> instant (utc 10 0 0)
   \<and> \<not> instant (endDate (example_health ! 3)) \<le> instant (utc 10 30 0)
   \<and> example_health ! 3 \<notin> set (take 3 example_health)"
proof -
  have a: "select_window example_health example_window = Inr (take 3 example_health)"
    by code_simp
  have b: "instant (startDate (example_health ! 3)) \<ge> instant (utc 10 0 0)" by code_simp
  have c: "\<not> instant (endDate (example_health ! 3)) \<le> instant (utc 10 30 0)" by code_simp
  obtain g where g: "select_window example_health (Some (utc 10 0 0), Some (utc 10 30 0)) = Inr g"
      "\<forall>S. S \<in> set g \<longleftrightarrow>
             S \<in> set example_health \<and> instant (startDate S) \<ge> instant (utc 10 0 0)
             \<and> instant (endDate S) \<le> instant (utc 10 30 0)"
    using containment[of example_health "utc 10 0 0" "utc 10 30 0"] by blast
  have "g = take 3 example_health" using a g(1) by (simp add: example_window_def)
  then have "example_health ! 3 \<notin> set (take 3 example_health)" using g(2) c by blast
  then show ?thesis using a b c by simp
qed

text \<open>
  C5, as the code has it.  In a run that returns its output table, the table is the
  concatenation, in the order of the windows, of one frame for each window: no row at all
  when the types of the window's group do not include \<open>VO2Max\<close>, whatever other types
  it holds, and otherwise every row of the group, each once, with \<open>workout_date\<close> set to
  the window's identifier.
\<close>

theorem gated_output:
  assumes "process_workout_routes_dir fromiso dir = Inr wds"
    and "prepare_health_data f health_csv = Inr health"
    and "filter_health_export fromiso f dir health_csv = Inr out"
  shows "\<exists>frames. out = concat frames
           \<and> list_all2 (\<lambda>(wid, w) frame.
                 \<exists>g. select_window health w = Inr g
                    \<and> (if Some ''VO2Max'' \<in> set (unique (map rtype g))
                       then mset (map original frame) = mset (map original g)
                            \<and> (\<forall>r \<in> set frame. workout_date r = Some wid)
                       else frame = [])) wds frames"
proof -
  obtain res where j: "join_loop health wds [] = Inr res" and o: "pd_concat res = Inr out"
    using assms by (auto simp: filter_health_export_def split: sum.splits)
  have "out = concat res" using o by (simp add: pd_concat_def split: if_splits)
  then show ?thesis using join_loop_frames[OF j] by simp
qed

theorem gated_output_witness:
  "process_workout_routes_dir fromisoformat_basic two_routes
     = Inr [(''run1.gpx'', example_window), (''run2.gpx'', (Some (utc 10 8 0), Some (utc 10 25 0)))]
   \<and> prepare_health_data whole_number example_csv = Inr example_health
   \<and> select_window example_health example_window = Inr (take 3 example_health)
   \<and> Some ''VO2Max'' \<in> set (unique (map rtype (take 3 example_health)))
   \<and> select_window example_health (Some (utc 10 8 0), Some (utc 10 25 0))
       = Inr (take 2 (tl example_health))
   \<and> Some ''VO2Max'' \<notin> set (unique (map rtype (take 2 (tl example_health))))
   \<and> (\<exists>out. filter_health_export fromisoformat_basic whole_number two_routes example_csv = Inr out
          \<and> mset (map original out) = mset (map original (take 3 example_health))
          \<and> list_all (\<lambda>r. workout_date r = Some ''run1.gpx'') out)"
proof -
  let ?w2 = "(Some (utc 10 8 0), Some (utc 10 25 0))"
  let ?out = "projr (filter_health_export fromisoformat_basic whole_number two_routes example_csv)"
  have a: "process_workout_routes_dir fromisoformat_basic two_routes
     = Inr [(''run1.gpx'', example_window), (''run2.gpx'', ?w2)]"
    by code_simp
  have b: "prepare_health_data whole_number example_csv = Inr example_health" by code_simp
  have c: "select_window example_health example_window = Inr (take 3 example_health)"
    by code_simp
  have d: "Some ''VO2Max'' \<in> set (unique (map rtype (take 3 example_health)))" by code_simp
  have e: "select_window example_health ?w2 = Inr (take 2 (tl example_health))" by code_simp
  have f: "Some ''VO2Max'' \<notin> set (unique (map rtype (take 2 (tl example_health))))" by code_simp
  have "isl (filter_health_export fromisoformat_basic whole_number two_routes example_csv) = False"
    by code_simp
  then have g: "filter_health_export fromisoformat_basic whole_number two_routes example_csv = Inr ?out"
    by (cases "filter_health_export fromisoformat_basic whole_number two_routes example_csv :: error + int health_row list")
      simp_all
  obtain frames where fr: "?out = concat frames"
      "list_all2 (\<lambda>(wid, w) frame.
                 \<exists>g. select_window example_health w = Inr g
                    \<and> (if Some ''VO2Max'' \<in> set (unique (map rtype g))
                       then mset (map original frame) = mset (map original g)
                            \<and> (\<forall>r \<in> set frame. workout_date r = Some wid)
                       else frame = []))
         [(''run1.gpx'', example_window), (''run2.gpx'', ?w2)] frames"
    using gated_output[OF a b g] by blast
  from fr(2) obtain f1 f2 where fs: "frames = [f1, f2]"
      "\<exists>g. select_window example_health example_window = Inr g
          \<and> (if Some ''VO2Max'' \<in> set (unique (map rtype g))
             then mset (map original f1) = mset (map original g)
                  \<and> (\<forall>r \<in> set f1. workout_date r = Some ''run1.gpx'')
             else f1 = [])"
      "\<exists>g. select_window example_health ?w2 = Inr g
          \<and> (if Some ''VO2Max'' \<in> set (unique (map rtype g))
             then mset (map original f2) = mset (map original g)
                  \<and> (\<forall>r \<in> set f2. workout_date r = Some ''run2.gpx'')
             else f2 = [])"
    by (auto simp: list_all2_Cons1)
  have f1: "mset (map original f1) = mset (map original (take 3 example_health))"
      "\<forall>r \<in> set f1. workout_date r = Some ''run1.gpx''"
    using fs(2) c d by auto
  have f2: "f2 = []" using fs(3) e f by auto
  have "?out = f1" using fr(1) fs(1) f2 by simp
  then have "mset (map original ?out) = mset (map original (take 3 example_health))
             \<and> list_all (\<lambda>r. workout_date r = Some ''run1.gpx'') ?out"
    using f1 by (simp add: list_all_iff)
  then show ?thesis using a b c d e f g by blast
qed

text \<open>
  A group that includes \<open>VO2Max\<close> and a row whose type cell is missing: the run ends in the
  \<open>IndexError\<close> of \<open>_getMidDates\<close>, and no row of the group is emitted.
\<close>

theorem untyped_row_stops_the_run:
  "prepare_health_data whole_number (example_csv @ [untyped_row])
     = Inr (example_health @ [untyped_sample])
   \<and> select_window (example_health @ [untyped_sample]) example_window
       = Inr (take 3 example_health @ [untyped_sample])
   \<and> Some ''VO2Max'' \<in> set (unique (map rtype (take 3 example_health @ [untyped_sample])))
   \<and> filter_health_export fromisoformat_basic whole_number example_dir
        (example_csv @ [untyped_row]) = Inl IndexError"
  by code_simp

text \<open>
  C9.  The rows whose \<open>value\<close> is not numeric are dropped before anything else is done:
  the prepared table and the output are those of the table without these rows (their
  dates are never read), and the prepared table holds, in order, exactly the rows whose
  \<open>value\<close> is numeric, with that number as value.
\<close>

theorem numeric_filtering:
  "prepare_health_data f health_csv
     = prepare_health_data f (filter (\<lambda>r. f (c_value r) \<noteq> None) health_csv)
   \<and> filter_health_export fromiso f dir health_csv
     = filter_health_export fromiso f dir (filter (\<lambda>r. f (c_value r) \<noteq> None) health_csv)
   \<and> (\<forall>health. prepare_health_data f health_csv = Inr health \<longrightarrow>
         map (\<lambda>h. (rtype h, rvalue h, other h)) health
         = map (\<lambda>r. (c_type r, the (f (c_value r)), c_other r))
             (filter (\<lambda>r. f (c_value r) \<noteq> None) health_csv))"
proof -
  have 1: "prepare_health_data f health_csv
     = prepare_health_data f (filter (\<lambda>r. f (c_value r) \<noteq> None) health_csv)"
    by (simp only: prepare_health_data_def numeric_rows_filter)
  have 2: "filter_health_export fromiso f dir health_csv
     = filter_health_export fromiso f dir (filter (\<lambda>r. f (c_value r) \<noteq> None) health_csv)"
    unfolding filter_health_export_def by (subst 1) (rule refl)
  show ?thesis using 1 2 prepare_health_data_rows(1)[of f health_csv] by blast
qed

theorem numeric_filtering_witness:
  "whole_number (c_value (example_csv ! 2)) = None
   \<and> parse_cell (c_startDate (example_csv ! 2)) = Inl ParseError
   \<and> prepare_health_data whole_number example_csv = Inr example_health
   \<and> map (\<lambda>h. (rtype h, rvalue h, other h)) example_health
       = [(Some ''VO2Max'', 40, []), (Some ''HeartRate'', 130, []), (Some ''HeartRate'', 131, []),
          (Some ''HeartRate'', 132, [])]"
proof -
  have a: "whole_number (c_value (example_csv ! 2)) = None" by code_simp
  have b: "parse_cell (c_startDate (example_csv ! 2)) = Inl ParseError" by code_simp
  have c: "prepare_health_data whole_number example_csv = Inr example_health" by code_simp
  have "map (\<lambda>h. (rtype h, rvalue h, other h)) example_health
        = map (\<lambda>r. (c_type r, the (whole_number (c_value r)), c_other r))
            (filter (\<lambda>r. whole_number (c_value r) \<noteq> None) example_csv)"
    using numeric_filtering[of whole_number example_csv] c by blast
  also have "\<dots> = [(Some ''VO2Max'', 40, []), (Some ''HeartRate'', 130, []),
          (Some ''HeartRate'', 131, []), (Some ''HeartRate'', 132, [])]"
    by code_simp
  finally show ?thesis using a b c by simp
qed

text \<open>
  C10, as the code has it.  Every row of the output is a row of the prepared table in its
  type, value, normalized \<open>startDate\<close> and \<open>endDate\<close>, and in every other column whose
  name is not \<open>workout_date\<close>, \<open>midStartDate\<close> or \<open>midEndDate\<close>; these three columns the
  pipeline has set.
\<close>

theorem other_input_columns_unchanged:
  assumes "prepare_health_data f health_csv = Inr health"
    and "filter_health_export fromiso f dir health_csv = Inr out"
  shows "\<forall>r' \<in> set out. \<exists>r \<in> set health.
           rtype r' = rtype r \<and> rvalue r' = rvalue r
           \<and> startDate r' = startDate r \<and> endDate r' = endDate r
           \<and> filter (\<lambda>(name, c). name \<notin> set added_columns) (other r')
               = filter (\<lambda>(name, c). name \<notin> set added_columns) (other r)
           \<and> workout_date r' \<noteq> None \<and> midStartDate r' \<noteq> None \<and> midEndDate r' \<noteq> None"
proof -
  obtain wds res where
    j: "join_loop health wds [] = Inr res" and o: "pd_concat res = Inr out"
    using assms by (auto simp: filter_health_export_def split: sum.splits)
  have fr: "\<forall>df \<in> set res. \<forall>r' \<in> set df.
           (\<exists>r \<in> set health. original r' = original r)
           \<and> workout_date r' \<noteq> None \<and> midStartDate r' \<noteq> None \<and> midEndDate r' \<noteq> None"
    by (rule join_loop_frame[OF j]) simp
  have ou: "out = concat res" using o by (simp add: pd_concat_def split: if_splits)
  show ?thesis
  proof
    fix r' assume "r' \<in> set out"
    then obtain df where "df \<in> set res" "r' \<in> set df" using ou by auto
    then obtain r where r: "r \<in> set health" "original r' = original r"
        "workout_date r' \<noteq> None" "midStartDate r' \<noteq> None" "midEndDate r' \<noteq> None"
      using fr by blast
    show "\<exists>r \<in> set health.
           rtype r' = rtype r \<and> rvalue r' = rvalue r
           \<and> startDate r' = startDate r \<and> endDate r' = endDate r
           \<and> filter (\<lambda>(name, c). name \<notin> set added_columns) (other r')
               = filter (\<lambda>(name, c). name \<notin> set added_columns) (other r)
           \<and> workout_date r' \<noteq> None \<and> midStartDate r' \<noteq> None \<and> midEndDate r' \<noteq> None"
      using r(1) original_fields[OF r(2)] r(3,4,5) by blast
  qed
qed

theorem other_input_columns_unchanged_witness:
  "prepare_health_data whole_number labelled_csv
     = Inr [\<lparr>rtype = Some ''VO2Max'', rvalue = 40, startDate = utc 10 5 0, endDate = utc 10 6 0,
             other = [(''workout_date'', Text ''2023-11-06''), (''sourceName'', Text ''Watch'')]\<rparr>]
   \<and> (\<exists>out. filter_health_export fromisoformat_basic whole_number example_dir labelled_csv = Inr out
          \<and> map rtype out = [Some ''VO2Max''] \<and> map rvalue out = [40]
          \<and> map startDate out = [utc 10 5 0] \<and> map endDate out = [utc 10 6 0]
          \<and> map (\<lambda>r. filter (\<lambda>(name, c). name \<notin> set added_columns) (other r)) out
              = [[(''sourceName'', Text ''Watch'')]])"
proof -
  let ?h = "\<lparr>rtype = Some ''VO2Max'', rvalue = 40 :: int, startDate = utc 10 5 0, endDate = utc 10 6 0,
             other = [(''workout_date'', Text ''2023-11-06''), (''sourceName'', Text ''Watch'')]\<rparr>"
  let ?run = "filter_health_export fromisoformat_basic whole_number example_dir labelled_csv
                :: error + int health_row list"
  have a: "prepare_health_data whole_number labelled_csv = Inr [?h]" by code_simp
  have "isl ?run = False" by code_simp
  then have b: "?run = Inr (projr ?run)" by (cases ?run) simp_all
  have l: "length (projr ?run) = 1" by code_simp
  then obtain r' where r': "projr ?run = [r']" by (cases "projr ?run") simp_all
  have "r' \<in> set (projr ?run)" using r' by simp
  then have "rtype r' = rtype ?h \<and> rvalue r' = rvalue ?h
           \<and> startDate r' = startDate ?h \<and> endDate r' = endDate ?h
           \<and> filter (\<lambda>(name, c). name \<notin> set added_columns) (other r')
               = filter (\<lambda>(name, c). name \<notin> set added_columns) (other ?h)"
    using other_input_columns_unchanged[OF a b] by auto
  moreover have "filter (\<lambda>(name, c). name \<notin> set added_columns) (other ?h)
                 = [(''sourceName'', Text ''Watch'')]"
    by code_simp
  ultimately have "map rtype (projr ?run) = [Some ''VO2Max''] \<and> map rvalue (projr ?run) = [40]
          \<and> map startDate (projr ?run) = [utc 10 5 0] \<and> map endDate (projr ?run) = [utc 10 6 0]
          \<and> map (\<lambda>r. filter (\<lambda>(name, c). name \<notin> set added_columns) (other r)) (projr ?run)
              = [[(''sourceName'', Text ''Watch'')]]"
    using r' by simp
  then have "\<exists>out. ?run = Inr out
          \<and> (map rtype out = [Some ''VO2Max''] \<and> map rvalue out = [40]
          \<and> map startDate out = [utc 10 5 0] \<and> map endDate out = [utc 10 6 0]
          \<and> map (\<lambda>r. filter (\<lambda>(name, c). name \<notin> set added_columns) (other r)) out
              = [[(''sourceName'', Text ''Watch'')]])"
    by (intro exI[of _ "projr ?run"] conjI[OF b])
  with a show ?thesis by (rule conjI)
qed

text \<open>
  A table with a column named \<open>workout_date\<close>: the row comes out with the file name of the
  route in that column, where it held \<open>2023-11-06\<close>.
\<close>

theorem workout_date_column_overwritten:
  "map other (projr (prepare_health_data whole_number labelled_csv :: error + int health_row list))
     = [[(''workout_date'', Text ''2023-11-06''), (''sourceName'', Text ''Watch'')]]
   \<and> filter_health_export fromisoformat_basic whole_number example_dir labelled_csv
       = Inr [\<lparr>rtype = Some ''VO2Max'', rvalue = 40, startDate = utc 10 5 0, endDate = utc 10 6 0,
               other = [(''workout_date'', Text ''run1.gpx''), (''sourceName'', Text ''Watch''),
                        (''midStartDate'', Time (instant (utc 10 5 0))),
                        (''midEndDate'', Time (instant (utc 10 6 0)))]\<rparr>]"
  by code_simp

text \<open>
  C2.  When the routes are read and the table is prepared without error and no window's
  group has a row of type \<open>VO2Max\<close>, the run ends in the error of the final
  concatenation, which has nothing to concatenate, and the output file is not written.
\<close>

theorem empty_result_fails:
  assumes "process_workout_routes_dir fromiso dir = Inr wds"
    and "prepare_health_data f health_csv = Inr health"
    and "\<forall>(wid, w) \<in> set wds. \<exists>g. select_window health w = Inr g
            \<and> Some ''VO2Max'' \<notin> set (unique (map rtype g))"
  shows "filter_health_export fromiso f dir health_csv = Inl NoObjectsToConcatenate
       \<and> process_workout_health_data fromiso f dir health_csv fp files
           = (Inl NoObjectsToConcatenate, files)"
proof -
  have "\<forall>(wid, w) \<in> set wds. \<exists>g. select_window health w = Inr g
           \<and> Some ''VO2Max'' \<notin> set (map rtype g)"
    using assms(3) by simp
  then have "join_loop health wds [] = Inr []" by (rule join_loop_none_qualifies)
  then have "filter_health_export fromiso f dir health_csv = Inl NoObjectsToConcatenate"
    using assms(1,2) by (simp add: filter_health_export_def pd_concat_def)
  then show ?thesis by (simp add: process_workout_health_data_def)
qed

theorem empty_result_fails_witness:
  "process_workout_routes_dir fromisoformat_basic example_dir = Inr [(''run1.gpx'', example_window)]
   \<and> prepare_health_data whole_number (tl example_csv) = Inr (tl example_health)
   \<and> select_window (tl example_health) example_window = Inr (take 2 (tl example_health))
   \<and> Some ''VO2Max'' \<notin> set (unique (map rtype (take 2 (tl example_health))))
   \<and> filter_health_export fromisoformat_basic whole_number example_dir (tl example_csv)
       = Inl NoObjectsToConcatenate
   \<and> process_workout_health_data fromisoformat_basic whole_number example_dir (tl example_csv)
         ''out.csv'' Map.empty
       = (Inl NoObjectsToConcatenate, Map.empty)"
proof -
  have a: "process_workout_routes_dir fromisoformat_basic example_dir
           = Inr [(''run1.gpx'', example_window)]"
    by code_simp
  have b: "prepare_health_data whole_number (tl example_csv) = Inr (tl example_health)"
    by code_simp
  have c: "select_window (tl example_health) example_window = Inr (take 2 (tl example_health))"
    by code_simp
  have d: "Some ''VO2Max'' \<notin> set (unique (map rtype (take 2 (tl example_health))))" by code_simp
  have e: "\<forall>(wid, w) \<in> set [(''run1.gpx'', example_window)].
             \<exists>g. select_window (tl example_health) w = Inr g
                \<and> Some ''VO2Max'' \<notin> set (unique (map rtype g))"
    using c d by simp
  show ?thesis
    using empty_result_fails[OF a b e, of "''out.csv''" Map.empty] a b c d by blast
qed

text \<open>
  C8, as the code has it.  The window of a track file with at least one point has the
  normalized time of the first point met as \<open>startDate\<close> and that of the last point met
  as \<open>endDate\<close>; \<open>startDate \<le> endDate\<close> holds exactly when the first point met is not later
  than the last one met.
\<close>

theorem window_is_first_and_last:
  assumes "all_timestamps \<noteq> []" and "extract_times_from_gpx fromiso all_timestamps = Inr w"
  shows "\<exists>first_time last_time.
           gpx_time_string_to_datetime fromiso (hd all_timestamps) = Inr first_time
           \<and> gpx_time_string_to_datetime fromiso (last all_timestamps) = Inr last_time
           \<and> w = (Some first_time, Some last_time)
           \<and> (instant (the (fst w)) \<le> instant (the (snd w))
                \<longleftrightarrow> instant first_time \<le> instant last_time)"
  using assms by (auto simp: extract_times_from_gpx_def split: sum.splits)

theorem window_is_first_and_last_witness:
  "snd (example_dir ! 0) \<noteq> []
   \<and> extract_times_from_gpx fromisoformat_basic (snd (example_dir ! 0)) = Inr example_window
   \<and> gpx_time_string_to_datetime fromisoformat_basic (hd (snd (example_dir ! 0))) = Inr (utc 10 0 0)
   \<and> gpx_time_string_to_datetime fromisoformat_basic (last (snd (example_dir ! 0))) = Inr (utc 10 30 0)
   \<and> instant (utc 10 0 0) \<le> instant (utc 10 30 0)"
proof -
  have a: "snd (example_dir ! 0) \<noteq> []" by code_simp
  have b: "extract_times_from_gpx fromisoformat_basic (snd (example_dir ! 0)) = Inr example_window"
    by code_simp
  have c: "gpx_time_string_to_datetime fromisoformat_basic (hd (snd (example_dir ! 0))) = Inr (utc 10 0 0)"
    by code_simp
  have d: "gpx_time_string_to_datetime fromisoformat_basic (last (snd (example_dir ! 0))) = Inr (utc 10 30 0)"
    by code_simp
  have "instant (the (fst example_window)) \<le> instant (the (snd example_window))
        \<longleftrightarrow> instant (utc 10 0 0) \<le> instant (utc 10 30 0)"
    using window_is_first_and_last[OF a b] c d by auto
  moreover have "instant (the (fst example_window)) \<le> instant (the (snd example_window))"
    by code_simp
  ultimately show ?thesis using a b c d by blast
qed

text \<open>
  A track whose points run backwards in time: the first point met is at 11:00:00, the last
  at 10:00:00, and the window starts after it ends.
\<close>

theorem window_out_of_order:
  "extract_times_from_gpx fromisoformat_basic
       [''2024-01-01T11:00:00Z'', ''2024-01-01T10:30:00Z'', ''2024-01-01T10:00:00Z'']
     = Inr (Some (utc 11 0 0), Some (utc 10 0 0))
   \<and> \<not> instant (utc 11 0 0) \<le> instant (utc 10 0 0)"
  by code_simp

text \<open>
  C3.  A track file without points gives the window \<open>(None, None)\<close>.  With a health table
  of one row, whose date columns pandas stores as datetime columns, the comparison of
  \<open>startDate\<close> with the window's \<open>None\<close> raises and the run ends there.
\<close>

theorem empty_track_raises:
  "extract_times_from_gpx fromisoformat_basic [] = Inr (None, None)
   \<and> filter_health_export fromisoformat_basic whole_number [(''empty.gpx'', [])]
        [csv ''VO2Max'' ''40'' ''2024-01-01 10:05:00 +0000'' ''2024-01-01 10:06:00 +0000'']
      = Inl InvalidComparison"
  by code_simp

end
